theory Spec2Isabelle
  imports Main
begin

section \<open>Python values used by imgbot.py\<close>

text \<open>
  Python strings are modelled as \<^typ>\<open>string\<close>. A variable that holds either a
  string or Python's \<open>None\<close> is a \<^typ>\<open>string option\<close>. An exception is a value of
  \<open>pyerror\<close>; a call that may raise returns \<open>pyerror + 'a\<close> with \<open>Inl\<close> for the raise.

  \<open>ConnectionError\<close> is the builtin exception that \<open>get_request\<close> raises itself.
  \<open>RequestException\<close> stands for the exceptions of the \<open>requests\<close> library
  (its own \<open>requests.exceptions.ConnectionError\<close>, \<open>Timeout\<close>, ...): they derive from
  \<open>IOError\<close> and not from the builtin \<open>ConnectionError\<close>, so \<open>except ConnectionError\<close>
  does not catch them. \<open>OSError\<close> stands for the errors of \<open>open\<close> and of writing a
  file (\<open>IsADirectoryError\<close>, \<open>FileNotFoundError\<close>, \<open>PermissionError\<close>, ...), which are
  not \<open>ConnectionError\<close> either.
\<close>

datatype pyerror =
  ConnectionError | RequestException | AttributeError | KeyError | TypeError | BadZipFile
| OSError

subsection \<open>String operations\<close>

definition startswith :: "string \<Rightarrow> string \<Rightarrow> bool" where
  "startswith s p = (take (length p) s = p)"

definition endswith :: "string \<Rightarrow> string \<Rightarrow> bool" where
  "endswith s suf = (length suf \<le> length s \<and> drop (length s - length suf) s = suf)"

text \<open>\<open>s.startswith(t)\<close> and \<open>s.endswith(t)\<close> with a tuple \<open>t\<close> of candidates.\<close>

definition startswith_any :: "string \<Rightarrow> string list \<Rightarrow> bool" where
  "startswith_any s ps = list_ex (startswith s) ps"

definition endswith_any :: "string \<Rightarrow> string list \<Rightarrow> bool" where
  "endswith_any s sufs = list_ex (endswith s) sufs"

text \<open>\<open>sub in s\<close> on strings: \<open>sub\<close> occurs in \<open>s\<close> as a contiguous substring.\<close>

fun str_contains :: "string \<Rightarrow> string \<Rightarrow> bool" where
  "str_contains sub [] = (sub = [])"
| "str_contains sub (c # cs) = (startswith (c # cs) sub \<or> str_contains sub cs)"

text \<open>
  \<open>str.lower()\<close>: the letters \<open>A\<close>..\<open>Z\<close> become \<open>a\<close>..\<open>z\<close>, every other character
  is kept (the model covers ASCII text, which is what a URL is made of).
\<close>

definition lower_char :: "char \<Rightarrow> char" where
  "lower_char c =
     (case map_of (zip ''ABCDEFGHIJKLMNOPQRSTUVWXYZ'' ''abcdefghijklmnopqrstuvwxyz'') c of
        Some d \<Rightarrow> d
      | None \<Rightarrow> c)"

definition lower :: "string \<Rightarrow> string" where
  "lower s = map lower_char s"

text \<open>\<open>f'{x}'\<close> of a value that is a string or \<open>None\<close>.\<close>

definition py_str :: "string option \<Rightarrow> string" where
  "py_str v = (case v of None \<Rightarrow> ''None'' | Some s \<Rightarrow> s)"

text \<open>\<open>os.path.basename\<close> (POSIX): what follows the last slash.\<close>

definition basename :: "string \<Rightarrow> string" where
  "basename p = rev (takeWhile (\<lambda>c. c \<noteq> CHR ''/'') (rev p))"

text \<open>\<open>os.path.join(path, filename)\<close> (POSIX) for two components.\<close>

definition path_join :: "string \<Rightarrow> string \<Rightarrow> string" where
  "path_join a b =
     (if startswith b ''/'' then b
      else if a = [] \<or> endswith a ''/'' then a @ b
      else a @ ''/'' @ b)"

section \<open>Data model\<close>

text \<open>
  A post of the platform client, with the attributes the program reads. The field
  \<open>post.url\<close> is named \<open>post_url\<close>.
\<close>

record post =
  post_url :: string
  title :: string
  stickied :: bool
  is_self :: bool
  over_18 :: bool

text \<open>
  A selector rule is a Python dict from strings to strings, kept as an association list.
  The dict objects live in a heap (a list, the address of an object is its index), and
  the table \<open>IMAGE_SELECTORS\<close> maps a domain to the address of its rule, so that
  \<open>.copy()\<close> and \<open>.pop()\<close> are an allocation and an in-place update.
\<close>

type_synonym rule = "(string \<times> string) list"

type_synonym addr = nat

text \<open>A response of the HTTP client: \<open>req.ok\<close>, \<open>req.url\<close>, \<open>req.text\<close>, \<open>req.content\<close>.\<close>

record response =
  ok :: bool
  resp_url :: string
  resp_text :: string
  content :: string

datatype http_result = NetworkFailure | Response response

text \<open>An element found by the HTML parser, as the list of its attributes (\<open>img.get(k)\<close>
  is the value of attribute \<open>k\<close>, a string, or \<open>None\<close> when the element has no such
  attribute).\<close>

type_synonym tag = "(string \<times> string) list"

text \<open>
  The external collaborators, as parameters:
  \<^item> \<open>session_get\<close>: \<open>session.get(url)\<close>, given the URLs requested so far; it answers
    with a response or fails with an exception of the \<open>requests\<close> library;
  \<^item> \<open>netloc\<close>: \<open>urlparse(url).netloc\<close>;
  \<^item> \<open>soup_find\<close>: \<open>BeautifulSoup(text, 'html.parser').find(**selectors)\<close>, the first
    element matching the selectors or \<open>None\<close>;
  \<^item> \<open>is_zipfile\<close>: whether \<open>zipfile.ZipFile\<close> accepts the bytes;
  \<^item> \<open>writable\<close>: whether the file system lets \<open>open(file, 'wb')\<close> and the writes to
    the file succeed.
\<close>

record env =
  session_get :: "string list \<Rightarrow> string \<Rightarrow> http_result"
  netloc :: "string \<Rightarrow> string"
  soup_find :: "string \<Rightarrow> rule \<Rightarrow> tag option"
  is_zipfile :: "string \<Rightarrow> bool"
  writable :: "string \<Rightarrow> bool"

datatype disk_op =
  WriteFile string string
| ExtractAll string string

text \<open>
  The state of a run: the heap of dict objects, the module global \<open>IMAGE_SELECTORS\<close>,
  the URLs passed to \<open>session.get\<close> so far, the lines printed, and the operations on
  the destination directory (\<open>WriteFile file bytes\<close>, \<open>ExtractAll bytes directory\<close>).
\<close>

record state =
  heap :: "rule list"
  IMAGE_SELECTORS :: "string \<rightharpoonup> addr"
  requests :: "string list"
  stdout :: "string list"
  disk :: "disk_op list"

definition print :: "string \<Rightarrow> state \<Rightarrow> state" where
  "print line s = s\<lparr>stdout := stdout s @ [line]\<rparr>"

section \<open>Module initialisation: the selector table\<close>

definition IMAGE_FORMATS :: "string list" where
  "IMAGE_FORMATS = [''.png'', ''.gif'', ''.gifv'', ''.jpg'', ''.jpeg'']"

definition default_rule :: rule where
  "default_rule = [(''name'', ''meta''), (''property'', ''og:image''), (''link'', ''content'')]"

definition imgur_rule :: rule where
  "imgur_rule = [(''name'', ''link''), (''rel'', ''image_src''), (''link'', ''href'')]"

definition tinypic_rule :: rule where
  "tinypic_rule = [(''name'', ''a''), (''class'', ''thickbox''), (''link'', ''href'')]"

definition gfycat_rule :: rule where
  "gfycat_rule = [(''name'', ''meta''), (''property'', ''og:url''), (''link'', ''content'')]"

definition builtin_state :: state where
  "builtin_state =
     \<lparr>heap = [default_rule, imgur_rule, tinypic_rule, gfycat_rule],
      IMAGE_SELECTORS =
        [''default'' \<mapsto> 0, ''imgur.com'' \<mapsto> 1, ''tinypic.com'' \<mapsto> 2, ''gfycat.com'' \<mapsto> 3],
      requests = [], stdout = [], disk = []\<rparr>"

text \<open>
  What the module finds at \<open>selectors.json\<close>: no file, a file that \<open>json.load\<close> rejects,
  a file that cannot be read, or a JSON object of rules (a dict, given by its items).
\<close>

datatype selectors_file =
  NoFile | JSONDecodeError | IOError | Loaded "(string \<times> rule) list"

text \<open>
  \<open>json.load\<close> builds the dict \<open>selectors\<close>: each rule is a new object in the heap.
\<close>

fun alloc_dicts :: "(string \<times> rule) list \<Rightarrow> rule list \<Rightarrow> (string \<rightharpoonup> addr) \<times> rule list" where
  "alloc_dicts [] h = (Map.empty, h)"
| "alloc_dicts (kv # kvs) h =
     (case alloc_dicts kvs (h @ [snd kv]) of
        (m, h') \<Rightarrow> (m(fst kv \<mapsto> length h), h'))"

definition load_selectors :: "selectors_file \<Rightarrow> state \<Rightarrow> state" where
  "load_selectors f s =
     (case f of
        NoFile \<Rightarrow> s
      | JSONDecodeError \<Rightarrow> print ''[-] Failed to decode selectors.json. Check formatting.'' s
      | IOError \<Rightarrow> print ''[-] Failed to load selectors.json. Check permissions.'' s
      | Loaded items \<Rightarrow>
          (case alloc_dicts items (heap s) of
             (selectors, h') \<Rightarrow>
               s\<lparr>heap := h', IMAGE_SELECTORS := IMAGE_SELECTORS s ++ selectors\<rparr>))"

definition module_init :: "selectors_file \<Rightarrow> state" where
  "module_init f = load_selectors f builtin_state"

section \<open>Operations on dict objects\<close>

text \<open>\<open>IMAGE_SELECTORS.get(domain, IMAGE_SELECTORS["default"])\<close>: the default is
  looked up first, as an argument of the call.\<close>

definition selectors_get :: "state \<Rightarrow> string \<Rightarrow> pyerror + addr" where
  "selectors_get s domain =
     (case IMAGE_SELECTORS s ''default'' of
        None \<Rightarrow> Inl KeyError
      | Some d \<Rightarrow> Inr (case IMAGE_SELECTORS s domain of None \<Rightarrow> d | Some a \<Rightarrow> a))"

definition dict_copy :: "addr \<Rightarrow> state \<Rightarrow> addr \<times> state" where
  "dict_copy a s = (length (heap s), s\<lparr>heap := heap s @ [heap s ! a]\<rparr>)"

definition dict_pop :: "addr \<Rightarrow> string \<Rightarrow> state \<Rightarrow> (pyerror + string) \<times> state" where
  "dict_pop a k s =
     (case map_of (heap s ! a) k of
        None \<Rightarrow> (Inl KeyError, s)
      | Some v \<Rightarrow> (Inr v, s\<lparr>heap := (heap s)[a := filter (\<lambda>kv. fst kv \<noteq> k) (heap s ! a)]\<rparr>))"

section \<open>The resolver\<close>

definition get_request :: "env \<Rightarrow> string option \<Rightarrow> state \<Rightarrow> (pyerror + response) \<times> state" where
  "get_request e url s =
     (case url of
        None \<Rightarrow> (Inl AttributeError, s)
      | Some u \<Rightarrow>
          (let u' = (if startswith_any u [''http://'', ''https://''] then u else ''http://'' @ u);
               s' = s\<lparr>requests := requests s @ [u']\<rparr>
           in case session_get e (requests s) u' of
                NetworkFailure \<Rightarrow> (Inl RequestException, s')
              | Response req \<Rightarrow> if \<not> ok req then (Inl ConnectionError, s') else (Inr req, s')))"

definition get_direct_image_url :: "env \<Rightarrow> string \<Rightarrow> state \<Rightarrow> (pyerror + string option) \<times> state" where
  "get_direct_image_url e url s =
     (case get_request e (Some url) s of
        (Inl err, s1) \<Rightarrow> (Inl err, s1)
      | (Inr req, s1) \<Rightarrow>
          (case selectors_get s1 (netloc e url) of
             Inl err \<Rightarrow> (Inl err, s1)
           | Inr a \<Rightarrow>
               (case dict_copy a s1 of
                  (selectors, s2) \<Rightarrow>
                    (case dict_pop selectors ''link'' s2 of
                       (Inl err, s3) \<Rightarrow> (Inl err, s3)
                     | (Inr link, s3) \<Rightarrow>
                         (case soup_find e (resp_text req) (heap s3 ! selectors) of
                            None \<Rightarrow> (Inl AttributeError, s3)
                          | Some img \<Rightarrow> (Inr (map_of img link), s3))))))"

definition get_post_image_url :: "env \<Rightarrow> post \<Rightarrow> state \<Rightarrow> (pyerror + string option) \<times> state" where
  "get_post_image_url e p s =
     (let url = post_url p in
      if endswith_any (lower url) IMAGE_FORMATS then (Inr (Some url), s)
      else if str_contains ''/a/'' url then (Inr (Some (url @ ''/zip'')), s)
      else get_direct_image_url e url s)"

section \<open>Persisting, the filter and the router\<close>

text \<open>
  \<open>save_image\<close> opens the file named after the last segment of \<open>req.url\<close> and writes
  the chunks of \<open>req.iter_content(512)\<close> one after another, so the file holds the body
  of the response. When \<open>req.url\<close> ends in a slash the file name is empty and
  \<open>os.path.join(path, '')\<close> names a directory (or is empty): \<open>open\<close> raises. It also
  raises when the file system refuses the file. \<open>extract_album\<close> raises
  \<open>zipfile.BadZipFile\<close> when the body is not a zip archive.
\<close>

definition save_image :: "env \<Rightarrow> response \<Rightarrow> string \<Rightarrow> state \<Rightarrow> (pyerror + unit) \<times> state" where
  "save_image e req path s =
     (let filename = basename (resp_url req);
          file = path_join path filename
      in if filename = [] \<or> \<not> writable e file then (Inl OSError, s)
         else (Inr (), s\<lparr>disk := disk s @ [WriteFile file (content req)]\<rparr>))"

definition extract_album :: "env \<Rightarrow> response \<Rightarrow> string \<Rightarrow> state \<Rightarrow> (pyerror + unit) \<times> state" where
  "extract_album e req path s =
     (if is_zipfile e (content req)
      then (Inr (), s\<lparr>disk := disk s @ [ExtractAll (content req) path]\<rparr>)
      else (Inl BadZipFile, s))"

text \<open>\<open>'/zip' in url\<close> raises \<open>TypeError\<close> when \<open>url\<close> is \<open>None\<close>.\<close>

definition zip_in :: "string option \<Rightarrow> pyerror + bool" where
  "zip_in url = (case url of None \<Rightarrow> Inl TypeError | Some u \<Rightarrow> Inr (str_contains ''/zip'' u))"

definition ignore_post :: "string option \<Rightarrow> bool \<Rightarrow> bool \<Rightarrow> string \<Rightarrow> state \<Rightarrow> (pyerror + bool) \<times> state" where
  "ignore_post url albums gifs ttl s =
     (case zip_in url of
        Inl err \<Rightarrow> (Inl err, s)
      | Inr z \<Rightarrow>
          if z \<and> \<not> albums then (Inr True, print (''[-] Ignoring album: '' @ ttl) s)
          else if endswith_any (py_str url) [''.gif'', ''.gifv''] \<and> \<not> gifs
            then (Inr True, print (''[-] Ignoring gif: '' @ ttl) s)
          else (Inr False, s))"

text \<open>The body of the loop of \<open>route_posts\<close> for one post; \<open>continue\<close> and the end of
  the body are \<open>Inr ()\<close>, an exception that no handler catches is \<open>Inl\<close>.\<close>

definition route_post :: "env \<Rightarrow> post \<Rightarrow> bool \<Rightarrow> bool \<Rightarrow> bool \<Rightarrow> string \<Rightarrow> state \<Rightarrow> (pyerror + unit) \<times> state" where
  "route_post e p albums gifs nsfw path s =
     (if (stickied p \<or> is_self p) \<or> (over_18 p \<and> \<not> nsfw) then (Inr (), s)
      else
        (case get_post_image_url e p s of
           (Inl err, s1) \<Rightarrow>
             if err = ConnectionError
               then (Inr (), print (''[-] Encountered bad url: '' @ post_url p) s1)
             else if err = AttributeError
               then (Inr (), print (''[-] Could not extract link from '' @ post_url p) s1)
             else (Inl err, s1)
         | (Inr url, s1) \<Rightarrow>
             (case ignore_post url albums gifs (title p) s1 of
                (Inl err, s2) \<Rightarrow> (Inl err, s2)
              | (Inr True, s2) \<Rightarrow> (Inr (), s2)
              | (Inr False, s2) \<Rightarrow>
                  (case get_request e url s2 of
                     (Inl err, s3) \<Rightarrow>
                       if err = ConnectionError
                         then (Inr (), print (''[-] Encountered bad url: '' @ py_str url) s3)
                       else (Inl err, s3)
                   | (Inr req, s3) \<Rightarrow>
                       (case zip_in url of
                          Inl err \<Rightarrow> (Inl err, s3)
                        | Inr True \<Rightarrow>
                            (case extract_album e req path s3 of
                               (Inl err, s4) \<Rightarrow> (Inl err, s4)
                             | (Inr u, s4) \<Rightarrow> (Inr (), print (''[+] Downloaded '' @ title p) s4))
                        | Inr False \<Rightarrow>
                            (case save_image e req path s3 of
                               (Inl err, s4) \<Rightarrow> (Inl err, s4)
                             | (Inr u, s4) \<Rightarrow> (Inr (), print (''[+] Downloaded '' @ title p) s4)))))))"

fun route_posts :: "env \<Rightarrow> post list \<Rightarrow> bool \<Rightarrow> bool \<Rightarrow> bool \<Rightarrow> string \<Rightarrow> state \<Rightarrow> (pyerror + unit) \<times> state" where
  "route_posts e [] albums gifs nsfw path s = (Inr (), s)"
| "route_posts e (p # ps) albums gifs nsfw path s =
     (case route_post e p albums gifs nsfw path s of
        (Inl err, s') \<Rightarrow> (Inl err, s')
      | (Inr u, s') \<Rightarrow> route_posts e ps albums gifs nsfw path s')"

text \<open>
  The program has no object for the kind of a resolved resource: the router tells an
  album archive from a single image by \<open>'/zip' in url\<close> (in \<open>ignore_post\<close> and before
  \<open>extract_album\<close>).
\<close>

datatype kind = SingleImage | AlbumArchive

definition resolved_kind :: "string \<Rightarrow> kind" where
  "resolved_kind url = (if str_contains ''/zip'' url then AlbumArchive else SingleImage)"

section \<open>The selector table as a dict of dicts\<close>

text \<open>
  The table read through its references: the rule stored for a domain. \<open>rule_for\<close> is
  the rule that \<open>get_direct_image_url\<close> picks for a domain (the domain's own rule, else
  the default one). \<open>table_wf\<close> says that every reference of the table is an address of
  the heap, as every Python reference is.
\<close>

definition table_of :: "state \<Rightarrow> string \<rightharpoonup> rule" where
  "table_of s domain = map_option (\<lambda>a. heap s ! a) (IMAGE_SELECTORS s domain)"

definition rule_for :: "state \<Rightarrow> string \<Rightarrow> pyerror + rule" where
  "rule_for s domain =
     (case selectors_get s domain of Inl err \<Rightarrow> Inl err | Inr a \<Rightarrow> Inr (heap s ! a))"

definition table_wf :: "state \<Rightarrow> bool" where
  "table_wf s = (\<forall>d a. IMAGE_SELECTORS s d = Some a \<longrightarrow> a < length (heap s))"

text \<open>
  \<open>kept s s'\<close>: from \<open>s\<close> to \<open>s'\<close> the table holds the same references and every dict
  object of \<open>s\<close> is unchanged (objects may have been added).
\<close>

definition kept :: "state \<Rightarrow> state \<Rightarrow> bool" where
  "kept s s' = (IMAGE_SELECTORS s' = IMAGE_SELECTORS s \<and> take (length (heap s)) (heap s') = heap s)"

section \<open>A small world for concrete runs\<close>

text \<open>
  The examples below run the program in a fixed world. The pages it serves: a page and
  an image that answer with an error status, pages with an Open Graph image, a page whose
  \<open>og:image\<close> element has no \<open>content\<close>, a page with no such element, and two album
  archives, one of which is not a zip file. The host \<open>down.example\<close> cannot be
  reached. Every file can be written but \<open>pics/locked.GIF\<close>. A document is given by its elements, each with its tag name under
  \<open>name\<close>; the network location is read off a URL that starts with \<open>http://\<close>.
\<close>

definition fixture_pages :: "(string \<times> response) list" where
  "fixture_pages =
     [(''http://gone.example/page'',
         \<lparr>ok = False, resp_url = ''http://gone.example/page'', resp_text = [], content = []\<rparr>),
      (''http://gone.example/pic.jpg'',
         \<lparr>ok = False, resp_url = ''http://gone.example/pic.jpg'', resp_text = [], content = []\<rparr>),
      (''http://site.example/view'',
         \<lparr>ok = True, resp_url = ''http://site.example/view'', resp_text = ''view'', content = []\<rparr>),
      (''http://site.example/cover'',
         \<lparr>ok = True, resp_url = ''http://site.example/cover'', resp_text = ''cover'', content = []\<rparr>),
      (''http://site.example/bare'',
         \<lparr>ok = True, resp_url = ''http://site.example/bare'', resp_text = ''bare'', content = []\<rparr>),
      (''http://site.example/empty'',
         \<lparr>ok = True, resp_url = ''http://site.example/empty'', resp_text = ''empty'', content = []\<rparr>),
      (''http://bad.example/page'',
         \<lparr>ok = True, resp_url = ''http://bad.example/page'', resp_text = ''view'', content = []\<rparr>),
      (''http://imgur.com/a/abc/zip'',
         \<lparr>ok = True, resp_url = ''http://imgur.com/a/abc/zip'', resp_text = [],
          content = ''not an archive''\<rparr>),
      (''http://imgur.com/a/xyz/zip'',
         \<lparr>ok = True, resp_url = ''http://imgur.com/a/xyz/zip'', resp_text = [], content = ''PK''\<rparr>)]"

definition fixture_documents :: "(string \<times> tag list) list" where
  "fixture_documents =
     [(''view'', [[(''name'', ''meta''), (''property'', ''og:image''),
                   (''content'', ''http://site.example/i.jpg'')]]),
      (''cover'', [[(''name'', ''meta''), (''property'', ''og:image''),
                    (''content'', ''http://cdn.example/zip/cover'')]]),
      (''bare'', [[(''name'', ''meta''), (''property'', ''og:image'')]]),
      (''empty'', [])]"

definition fixture_env :: env where
  "fixture_env =
     \<lparr>session_get = (\<lambda>history u.
        if u = ''http://down.example/page'' then NetworkFailure
        else (case map_of fixture_pages u of
                Some r \<Rightarrow> Response r
              | None \<Rightarrow>
                  Response \<lparr>ok = True, resp_url = u, resp_text = [], content = ''image bytes''\<rparr>)),
      netloc = (\<lambda>u. takeWhile (\<lambda>c. c \<noteq> CHR ''/'') (drop 7 u)),
      soup_find = (\<lambda>t sel.
        case map_of fixture_documents t of
          None \<Rightarrow> None
        | Some els \<Rightarrow> find (\<lambda>el. list_all (\<lambda>kv. map_of el (fst kv) = Some (snd kv)) sel) els),
      is_zipfile = (\<lambda>b. b = ''PK''),
      writable = (\<lambda>f. f \<noteq> ''pics/locked.GIF'')\<rparr>"

definition link_post :: "string \<Rightarrow> string \<Rightarrow> post" where
  "link_post u t = \<lparr>post_url = u, title = t, stickied = False, is_self = False, over_18 = False\<rparr>"

section \<open>Facts about the string operations\<close>


lemma endswith_iff: "endswith s suf \<longleftrightarrow> (\<exists>p. s = p @ suf)"
  unfolding endswith_def
  by (metis append_eq_conv_conj append_take_drop_id diff_add_inverse2 length_append le_add2 length_drop)



lemmas str_defs =
  endswith_any_def endswith_def startswith_any_def startswith_def lower_def lower_char_def
  IMAGE_FORMATS_def py_str_def

lemmas fixture_defs = fixture_env_def fixture_pages_def fixture_documents_def link_post_def

section \<open>The resolver on direct images and albums\<close>

text \<open>
  A URL whose lower-cased form ends in one of \<open>IMAGE_FORMATS\<close> is returned unchanged by
  \<open>get_post_image_url\<close>, and the state is returned as it was: no request is issued.
\<close>

lemma direct_image_url_unchanged:
  assumes "endswith_any (lower (post_url p)) IMAGE_FORMATS"
  shows "get_post_image_url e p s = (Inr (Some (post_url p)), s) \<and>
         requests (snd (get_post_image_url e p s)) = requests s"
  using assms by (simp add: get_post_image_url_def)

lemma direct_image_url_unchanged_example:
  "endswith_any (lower ''http://i.example/Cat.JPG'') IMAGE_FORMATS \<and>
   get_post_image_url fixture_env (link_post ''http://i.example/Cat.JPG'' ''cat'') builtin_state
     = (Inr (Some ''http://i.example/Cat.JPG''), builtin_state)"
proof -
  have h: "endswith_any (lower (post_url (link_post ''http://i.example/Cat.JPG'' ''cat''))) IMAGE_FORMATS"
    by code_simp
  show ?thesis
    using h direct_image_url_unchanged [OF h, of fixture_env builtin_state]
    by (simp add: link_post_def)
qed

lemma builtin_state_logs:
  "requests builtin_state = [] \<and> stdout builtin_state = [] \<and> disk builtin_state = []"
  by (simp add: builtin_state_def)

text \<open>
  Claim C1. A URL whose lower-cased form ends in a direct-image extension resolves to
  itself, with no request, as a single image. The program keeps no kind beside the URL:
  \<open>ignore_post\<close> and \<open>route_posts\<close> take a resolved URL for an album archive when it
  contains \<open>/zip\<close>. At the direct image \<open>http://h/zip/x.png\<close> the resolver returns the
  URL unchanged, and the router does not treat it as a single image: with albums
  disallowed the post is skipped as an album and nothing is requested or written; with
  albums allowed the image is fetched and handed to \<open>extract_album\<close>, whose
  \<open>BadZipFile\<close> ends the run.
\<close>

theorem direct_image_with_zip_routed_as_album:
  "endswith_any (lower ''http://h/zip/x.png'') IMAGE_FORMATS \<and>
   get_post_image_url fixture_env (link_post ''http://h/zip/x.png'' ''t'') builtin_state
     = (Inr (Some ''http://h/zip/x.png''), builtin_state) \<and>
   route_post fixture_env (link_post ''http://h/zip/x.png'' ''t'') False True False ''pics''
       builtin_state
     = (Inr (), print ''[-] Ignoring album: t'' builtin_state) \<and>
   route_post fixture_env (link_post ''http://h/zip/x.png'' ''t'') True True False ''pics''
       builtin_state
     = (Inl BadZipFile, builtin_state\<lparr>requests := [''http://h/zip/x.png'']\<rparr>)"
proof -
  let ?p = "link_post ''http://h/zip/x.png'' ''t''"
  have ext: "endswith_any (lower ''http://h/zip/x.png'') IMAGE_FORMATS" by code_simp
  have g: "get_post_image_url fixture_env ?p builtin_state
             = (Inr (Some ''http://h/zip/x.png''), builtin_state)"
    using ext by (simp add: get_post_image_url_def link_post_def)
  have z: "zip_in (Some ''http://h/zip/x.png'') = Inr True"
    by (simp add: zip_in_def startswith_def)
  have skip: "route_post fixture_env ?p False True False ''pics'' builtin_state
     = (Inr (), print ''[-] Ignoring album: t'' builtin_state)"
    by (simp add: route_post_def g ignore_post_def z) (simp add: link_post_def)
  have fetch: "get_request fixture_env (Some ''http://h/zip/x.png'') builtin_state
     = (Inr \<lparr>ok = True, resp_url = ''http://h/zip/x.png'', resp_text = [], content = ''image bytes''\<rparr>,
        builtin_state\<lparr>requests := [''http://h/zip/x.png'']\<rparr>)"
    by (simp add: get_request_def fixture_defs str_defs Let_def builtin_state_logs)
  have run: "route_post fixture_env ?p True True False ''pics'' builtin_state
     = (Inl BadZipFile, builtin_state\<lparr>requests := [''http://h/zip/x.png'']\<rparr>)"
    by (simp add: route_post_def g ignore_post_def z fetch extract_album_def py_str_def
        endswith_any_def)
       (simp add: link_post_def fixture_env_def)
  show ?thesis using ext g skip run by blast
qed




section \<open>The table and the heap across the operations\<close>

lemma kept_refl: "kept s s"
  by (simp add: kept_def)

lemma kept_trans: 
  assumes "kept s s1" and "kept s1 s2" shows "kept s s2"
proof -
  have le: "length (heap s) \<le> length (heap s1)"
    using assms(1) unfolding kept_def by (metis length_take min.cobounded1)
  have "take (length (heap s)) (heap s2) = take (length (heap s)) (take (length (heap s1)) (heap s2))"
    using le by (simp add: min_def)
  also have "\<dots> = heap s" using assms unfolding kept_def by simp
  finally show ?thesis using assms unfolding kept_def by simp
qed

lemma kept_print: "kept s (print l s)"
  by (simp add: kept_def print_def)

lemma get_request_kept: "get_request e u s = (r, s') \<Longrightarrow> kept s s'"
  by (auto simp: get_request_def kept_def Let_def split: option.splits http_result.splits if_splits)

lemma dict_copy_kept: "dict_copy a s = (b, s') \<Longrightarrow> kept s s' \<and> b = length (heap s) \<and> length (heap s') = Suc b"
  by (auto simp: dict_copy_def kept_def)

lemma dict_pop_fresh_kept:
  assumes "dict_pop (length (heap s)) k s' = (r, s'')" and "kept s s'"
  shows "kept s s''"
  using assms
  by (auto simp: dict_pop_def kept_def split: option.splits)

lemma get_direct_image_url_kept:
  assumes "get_direct_image_url e u s = (r, s')" shows "kept s s'"
proof -
  obtain q s1 where g: "get_request e (Some u) s = (q, s1)" by (cases "get_request e (Some u) s")
  then have k1: "kept s s1" by (rule get_request_kept)
  show ?thesis
  proof (cases q)
    case (Inl err)
    then show ?thesis using assms g k1 by (simp add: get_direct_image_url_def)
  next
    case (Inr req)
    show ?thesis
    proof (cases "selectors_get s1 (netloc e u)")
      case (Inl err)
      then show ?thesis using assms g k1 Inr by (simp add: get_direct_image_url_def)
    next
      case sel: (Inr a)
      obtain b s2 where c: "dict_copy a s1 = (b, s2)" by (cases "dict_copy a s1")
      then have k2: "kept s1 s2" and b: "b = length (heap s1)" using dict_copy_kept by blast+
      obtain v s3 where p: "dict_pop b ''link'' s2 = (v, s3)" by (cases "dict_pop b ''link'' s2")
      then have k3: "kept s1 s3" using dict_pop_fresh_kept k2 b by blast
      then have k: "kept s s3" using k1 kept_trans by blast
      have "s' = s3"
        using assms g Inr sel c p
        by (auto simp: get_direct_image_url_def split: sum.splits option.splits)
      then show ?thesis using k by simp
    qed
  qed
qed

lemma get_post_image_url_kept: "get_post_image_url e p s = (r, s') \<Longrightarrow> kept s s'"
  by (auto simp: get_post_image_url_def Let_def kept_refl get_direct_image_url_kept split: if_splits)

lemma ignore_post_kept: "ignore_post u a g t s = (r, s') \<Longrightarrow> kept s s'"
  by (auto simp: ignore_post_def kept_refl kept_print split: sum.splits if_splits)

lemma save_image_kept: "save_image e req path s = (r, s') \<Longrightarrow> kept s s'"
  by (auto simp: save_image_def kept_def Let_def split: if_splits)

lemma extract_album_kept: "extract_album e req path s = (r, s') \<Longrightarrow> kept s s'"
  by (auto simp: extract_album_def kept_def split: if_splits)

lemma print_same: "heap (print l s) = heap s \<and> IMAGE_SELECTORS (print l s) = IMAGE_SELECTORS s"
  by (simp add: print_def)

lemma get_request_same:
  "get_request e u s = (r, s') \<Longrightarrow> heap s' = heap s \<and> IMAGE_SELECTORS s' = IMAGE_SELECTORS s"
  by (auto simp: get_request_def Let_def split: option.splits http_result.splits if_splits)

lemma ignore_post_same:
  "ignore_post u a g t s = (r, s') \<Longrightarrow> heap s' = heap s \<and> IMAGE_SELECTORS s' = IMAGE_SELECTORS s"
  by (auto simp: ignore_post_def print_def split: sum.splits if_splits)

lemma save_image_same:
  "save_image e req path s = (r, s') \<Longrightarrow> heap s' = heap s \<and> IMAGE_SELECTORS s' = IMAGE_SELECTORS s"
  by (auto simp: save_image_def Let_def split: if_splits)

lemma extract_album_same:
  "extract_album e req path s = (r, s') \<Longrightarrow> heap s' = heap s \<and> IMAGE_SELECTORS s' = IMAGE_SELECTORS s"
  by (auto simp: extract_album_def split: if_splits)

lemma route_post_kept:
  assumes "route_post e p albums gifs nsfw path s = (r, s')" shows "kept s s'"
proof (cases "(stickied p \<or> is_self p) \<or> (over_18 p \<and> \<not> nsfw)")
  case True
  then show ?thesis using assms by (auto simp: route_post_def kept_refl)
next
  case False
  obtain q s1 where g: "get_post_image_url e p s = (q, s1)" by (cases "get_post_image_url e p s")
  then have k1: "kept s s1" by (rule get_post_image_url_kept)
  have "heap s' = heap s1 \<and> IMAGE_SELECTORS s' = IMAGE_SELECTORS s1"
    using assms False g
    by (auto simp: route_post_def print_same
        split: sum.splits bool.splits if_splits prod.splits
        dest!: get_request_same ignore_post_same extract_album_same save_image_same)
  then show ?thesis using k1 by (simp add: kept_def)
qed

lemma route_posts_kept:
  "route_posts e ps albums gifs nsfw path s = (r, s') \<Longrightarrow> kept s s'"
proof (induction ps arbitrary: s)
  case Nil
  then show ?case by (simp add: kept_refl)
next
  case (Cons p ps)
  obtain q s1 where st: "route_post e p albums gifs nsfw path s = (q, s1)"
    by (cases "route_post e p albums gifs nsfw path s")
  then have k1: "kept s s1" by (rule route_post_kept)
  show ?case
  proof (cases q)
    case (Inl err)
    then show ?thesis using Cons.prems st k1 by simp
  next
    case (Inr u)
    then have "route_posts e ps albums gifs nsfw path s1 = (r, s')" using Cons.prems st by simp
    then have "kept s1 s'" by (rule Cons.IH)
    then show ?thesis using k1 kept_trans by blast
  qed
qed

lemma kept_nth: "kept s s' \<Longrightarrow> a < length (heap s) \<Longrightarrow> heap s' ! a = heap s ! a"
  unfolding kept_def by (metis nth_take)

lemma kept_length: "kept s s' \<Longrightarrow> length (heap s) \<le> length (heap s')"
  unfolding kept_def by (metis length_take min.cobounded1)

lemma kept_table_of:
  assumes "kept s s'" and "table_wf s"
  shows "table_of s' = table_of s \<and> table_wf s'"
proof -
  have tab: "IMAGE_SELECTORS s' = IMAGE_SELECTORS s" using assms(1) by (simp add: kept_def)
  have "table_of s' d = table_of s d" for d
  proof (cases "IMAGE_SELECTORS s d")
    case None
    then show ?thesis using tab by (simp add: table_of_def)
  next
    case (Some a)
    then have "a < length (heap s)" using assms(2) by (simp add: table_wf_def)
    then show ?thesis using Some tab kept_nth [OF assms(1)] by (simp add: table_of_def)
  qed
  moreover have "table_wf s'"
    using assms(2) tab kept_length [OF assms(1)] unfolding table_wf_def
    by (metis less_le_trans)
  ultimately show ?thesis by auto
qed

section \<open>Loading the selector configuration\<close>

lemma alloc_dicts_Cons:
  "alloc_dicts (kv # kvs) h =
     ((fst (alloc_dicts kvs (h @ [snd kv])))(fst kv \<mapsto> length h), snd (alloc_dicts kvs (h @ [snd kv])))"
  by (simp split: prod.splits)

lemma alloc_dicts_heap: "snd (alloc_dicts kvs h) = h @ map snd kvs"
proof (induction kvs arbitrary: h)
  case Nil
  then show ?case by simp
next
  case (Cons kv kvs)
  show ?case unfolding alloc_dicts_Cons using Cons.IH [of "h @ [snd kv]"] by simp
qed

lemma alloc_dicts_none: "fst (alloc_dicts kvs h) k = None \<longleftrightarrow> k \<notin> fst ` set kvs"
proof (induction kvs arbitrary: h)
  case Nil
  then show ?case by simp
next
  case (Cons kv kvs)
  show ?case unfolding alloc_dicts_Cons using Cons.IH [of "h @ [snd kv]"] by auto
qed

lemma alloc_dicts_some:
  "fst (alloc_dicts kvs h) k = Some a \<Longrightarrow>
     length h \<le> a \<and> a < length h + length kvs \<and> map_of kvs k = Some ((h @ map snd kvs) ! a)"
proof (induction kvs arbitrary: h)
  case Nil
  then show ?case by simp
next
  case (Cons kv kvs)
  show ?case
  proof (cases "k = fst kv")
    case True
    then have "a = length h" using Cons.prems unfolding alloc_dicts_Cons by simp
    then show ?thesis using True by simp
  next
    case False
    then have "fst (alloc_dicts kvs (h @ [snd kv])) k = Some a"
      using Cons.prems unfolding alloc_dicts_Cons by simp
    from Cons.IH [OF this] show ?thesis using False by simp
  qed
qed

lemma table_wf_builtin: "table_wf builtin_state"
  by (simp add: table_wf_def builtin_state_def)

lemma table_wf_load:
  assumes "table_wf s" shows "table_wf (load_selectors f s)"
proof (cases f)
  case (Loaded kvs)
  obtain m h' where r: "alloc_dicts kvs (heap s) = (m, h')" by (cases "alloc_dicts kvs (heap s)")
  have h': "h' = heap s @ map snd kvs" using alloc_dicts_heap [of kvs "heap s"] r by simp
  have "a < length h'" if *: "(IMAGE_SELECTORS s ++ m) d = Some a" for d a
  proof (cases "m d")
    case None
    then have "IMAGE_SELECTORS s d = Some a" using * by (simp add: map_add_def)
    then have "a < length (heap s)" using assms by (simp add: table_wf_def)
    then show ?thesis using h' by simp
  next
    case (Some b)
    then have "b = a" using * by (simp add: map_add_def)
    then have "fst (alloc_dicts kvs (heap s)) d = Some a" using Some r by simp
    from alloc_dicts_some [OF this] show ?thesis using h' by simp
  qed
  moreover have "load_selectors f s = s\<lparr>heap := h', IMAGE_SELECTORS := IMAGE_SELECTORS s ++ m\<rparr>"
    using Loaded r by (simp add: load_selectors_def)
  ultimately show ?thesis unfolding table_wf_def by simp
qed (use assms in \<open>simp_all add: load_selectors_def table_wf_def print_def\<close>)

lemma table_wf_module_init: "table_wf (module_init f)"
  unfolding module_init_def by (rule table_wf_load [OF table_wf_builtin])

lemma table_of_load:
  assumes "table_wf s"
  shows "table_of (load_selectors (Loaded kvs) s) = table_of s ++ map_of kvs"
proof
  fix d
  obtain m h' where r: "alloc_dicts kvs (heap s) = (m, h')" by (cases "alloc_dicts kvs (heap s)")
  have h': "h' = heap s @ map snd kvs" using alloc_dicts_heap [of kvs "heap s"] r by simp
  have st: "load_selectors (Loaded kvs) s = s\<lparr>heap := h', IMAGE_SELECTORS := IMAGE_SELECTORS s ++ m\<rparr>"
    using r by (simp add: load_selectors_def)
  show "table_of (load_selectors (Loaded kvs) s) d = (table_of s ++ map_of kvs) d"
  proof (cases "m d")
    case None
    then have nk: "d \<notin> fst ` set kvs" using alloc_dicts_none [of kvs "heap s" d] r by simp
    then have mo: "map_of kvs d = None" by (simp add: map_of_eq_None_iff)
    show ?thesis
    proof (cases "IMAGE_SELECTORS s d")
      case n: None
      then show ?thesis using None mo st by (simp add: table_of_def map_add_def)
    next
      case (Some a)
      then have "a < length (heap s)" using assms by (simp add: table_wf_def)
      then show ?thesis using None Some mo st h' by (simp add: table_of_def map_add_def nth_append)
    qed
  next
    case (Some a)
    then have "fst (alloc_dicts kvs (heap s)) d = Some a" using r by simp
    from alloc_dicts_some [OF this] have "map_of kvs d = Some (h' ! a)" using h' by simp
    then show ?thesis using Some st by (simp add: table_of_def map_add_def)
  qed
qed

lemma rule_for_table_of:
  "rule_for s d =
     (case table_of s ''default'' of
        None \<Rightarrow> Inl KeyError
      | Some dflt \<Rightarrow> Inr (case table_of s d of None \<Rightarrow> dflt | Some r \<Rightarrow> r))"
  by (simp add: rule_for_def selectors_get_def table_of_def split: option.splits)

lemma table_of_builtin:
  "table_of builtin_state =
     [''default'' \<mapsto> default_rule, ''imgur.com'' \<mapsto> imgur_rule,
      ''tinypic.com'' \<mapsto> tinypic_rule, ''gfycat.com'' \<mapsto> gfycat_rule]"
  by (rule ext) (simp add: table_of_def builtin_state_def)

text \<open>
  Claim C8. The merge of the configuration into the table is key-wise: when the
  configuration has no key \<open>imgur.com\<close>, the rule picked for \<open>imgur.com\<close> is the built-in
  one. The merged table is the built-in table overridden by the configuration: a domain
  that is not a key of the configuration keeps its entry, a key of the configuration
  gets the configuration's rule.
\<close>

theorem selector_merge_key_wise:
  assumes "''imgur.com'' \<notin> fst ` set items"
  shows "rule_for (module_init (Loaded items)) ''imgur.com'' = Inr imgur_rule \<and>
         table_of (module_init (Loaded items)) = table_of builtin_state ++ map_of items \<and>
         (\<forall>d. d \<notin> fst ` set items \<longrightarrow>
            table_of (module_init (Loaded items)) d = table_of builtin_state d) \<and>
         (\<forall>d r. map_of items d = Some r \<longrightarrow> table_of (module_init (Loaded items)) d = Some r)"
proof -
  have merged: "table_of (module_init (Loaded items)) = table_of builtin_state ++ map_of items"
    unfolding module_init_def by (rule table_of_load [OF table_wf_builtin])
  have absent: "map_of items d = None" if "d \<notin> fst ` set items" for d
    using that by (simp add: map_of_eq_None_iff)
  have keep: "table_of (module_init (Loaded items)) d = table_of builtin_state d"
    if "d \<notin> fst ` set items" for d
    using absent [OF that] by (simp add: merged map_add_def)
  have override: "table_of (module_init (Loaded items)) d = Some r" if "map_of items d = Some r" for d r
    using that by (simp add: merged map_add_def)
  have imgur: "table_of (module_init (Loaded items)) ''imgur.com'' = Some imgur_rule"
    using keep [OF assms] by (simp add: table_of_builtin)
  have "table_of (module_init (Loaded items)) ''default'' \<noteq> None"
    by (simp add: merged map_add_def table_of_builtin split: option.splits)
  then have "rule_for (module_init (Loaded items)) ''imgur.com'' = Inr imgur_rule"
    using imgur by (auto simp: rule_for_table_of)
  then show ?thesis using merged keep override by blast
qed

theorem selector_merge_key_wise_witness:
  "''imgur.com'' \<notin> fst ` set [(''gfycat.com'', [(''name'', ''video''), (''link'', ''src'')])] \<and>
   rule_for (module_init (Loaded [(''gfycat.com'', [(''name'', ''video''), (''link'', ''src'')])]))
     ''imgur.com'' = Inr imgur_rule \<and>
   rule_for (module_init (Loaded [(''gfycat.com'', [(''name'', ''video''), (''link'', ''src'')])]))
     ''gfycat.com'' = Inr [(''name'', ''video''), (''link'', ''src'')]"
proof -
  have a: "''imgur.com'' \<notin> fst ` set [(''gfycat.com'', [(''name'', ''video''), (''link'', ''src'')])]"
    by simp
  have b: "rule_for (module_init (Loaded [(''gfycat.com'', [(''name'', ''video''), (''link'', ''src'')])]))
     ''gfycat.com'' = Inr [(''name'', ''video''), (''link'', ''src'')]"
    by code_simp
  show ?thesis using a b selector_merge_key_wise [OF a] by simp
qed

text \<open>
  Claim C9. The selector table is read-only after initialisation. From a state whose
  table refers to objects of the heap, resolving a post, and routing any list of posts,
  leave the references of the table and every dict object that existed before
  unchanged, so the table reads as it did at startup: \<open>.copy()\<close> allocates a new
  object and \<open>.pop('link')\<close> updates that copy.
\<close>

theorem selector_table_read_only:
  assumes "table_wf s"
  shows "IMAGE_SELECTORS (snd (get_post_image_url e p s)) = IMAGE_SELECTORS s \<and>
         take (length (heap s)) (heap (snd (get_post_image_url e p s))) = heap s \<and>
         table_of (snd (get_post_image_url e p s)) = table_of s \<and>
         IMAGE_SELECTORS (snd (route_posts e ps albums gifs nsfw path s)) = IMAGE_SELECTORS s \<and>
         take (length (heap s)) (heap (snd (route_posts e ps albums gifs nsfw path s))) = heap s \<and>
         table_of (snd (route_posts e ps albums gifs nsfw path s)) = table_of s \<and>
         table_wf (snd (route_posts e ps albums gifs nsfw path s))"
proof -
  have k1: "kept s (snd (get_post_image_url e p s))"
    by (rule get_post_image_url_kept [of e p s "fst (get_post_image_url e p s)"]) simp
  have k2: "kept s (snd (route_posts e ps albums gifs nsfw path s))"
    by (rule route_posts_kept [of e ps albums gifs nsfw path s
          "fst (route_posts e ps albums gifs nsfw path s)"]) simp
  show ?thesis
    using k1 k2 kept_table_of [OF k1 assms] kept_table_of [OF k2 assms]
    by (simp add: kept_def)
qed

theorem selector_table_read_only_witness:
  "table_wf builtin_state \<and>
   table_of (snd (route_posts fixture_env
       [link_post ''http://site.example/view'' ''a'', link_post ''http://site.example/empty'' ''b'']
       True True False ''pics'' builtin_state)) = table_of builtin_state \<and>
   heap (snd (route_posts fixture_env
       [link_post ''http://site.example/view'' ''a'', link_post ''http://site.example/empty'' ''b'']
       True True False ''pics'' builtin_state))
     = heap builtin_state @
         [[(''name'', ''meta''), (''property'', ''og:image'')],
          [(''name'', ''meta''), (''property'', ''og:image'')]]"
proof -
  have h: "heap (snd (route_posts fixture_env
       [link_post ''http://site.example/view'' ''a'', link_post ''http://site.example/empty'' ''b'']
       True True False ''pics'' builtin_state))
     = heap builtin_state @
         [[(''name'', ''meta''), (''property'', ''og:image'')],
          [(''name'', ''meta''), (''property'', ''og:image'')]]"
    by code_simp
  have t: "table_of (snd (route_posts fixture_env
       [link_post ''http://site.example/view'' ''a'', link_post ''http://site.example/empty'' ''b'']
       True True False ''pics'' builtin_state)) = table_of builtin_state"
    using selector_table_read_only [OF table_wf_builtin] by blast
  show ?thesis
    using h t table_wf_builtin by blast
qed

section \<open>The resolver on pages\<close>

lemma page_url_resolution:
  assumes "\<not> endswith_any (lower (post_url p)) IMAGE_FORMATS"
      and "\<not> str_contains ''/a/'' (post_url p)"
  shows "get_post_image_url e p s = get_direct_image_url e (post_url p) s"
  using assms by (simp add: get_post_image_url_def)

lemma get_direct_image_url_fetched:
  assumes "get_request e (Some url) s = (Inr req, s1)"
      and "selectors_get s1 (netloc e url) = Inr a"
  shows "get_direct_image_url e url s =
     (case map_of (heap s1 ! a) ''link'' of
        None \<Rightarrow> (Inl KeyError, s1\<lparr>heap := heap s1 @ [heap s1 ! a]\<rparr>)
      | Some link \<Rightarrow>
          (case soup_find e (resp_text req) (filter (\<lambda>kv. fst kv \<noteq> ''link'') (heap s1 ! a)) of
             None \<Rightarrow> Inl AttributeError
           | Some img \<Rightarrow> Inr (map_of img link),
           s1\<lparr>heap := heap s1 @ [filter (\<lambda>kv. fst kv \<noteq> ''link'') (heap s1 ! a)]\<rparr>))"
  using assms
  by (simp add: get_direct_image_url_def dict_copy_def dict_pop_def split: option.splits)

text \<open>
  A page is fetched when the URL is neither a direct image nor an album. When the
  request succeeds and the rule picked for the domain has a \<open>link\<close> entry, the resolver
  fails with \<open>AttributeError\<close> when no element matches the rule without its \<open>link\<close>
  entry; when an element matches and carries the link attribute, the resolver returns
  the value of that attribute, which the router handles as a single image exactly when
  it does not contain \<open>/zip\<close>.
\<close>

lemma page_extraction:
  assumes "\<not> endswith_any (lower (post_url p)) IMAGE_FORMATS"
      and "\<not> str_contains ''/a/'' (post_url p)"
      and "get_request e (Some (post_url p)) s = (Inr req, s1)"
      and "selectors_get s1 (netloc e (post_url p)) = Inr a"
      and "map_of (heap s1 ! a) ''link'' = Some link"
  shows "(soup_find e (resp_text req) (filter (\<lambda>kv. fst kv \<noteq> ''link'') (heap s1 ! a)) = None \<longrightarrow>
            fst (get_post_image_url e p s) = Inl AttributeError) \<and>
         (\<forall>img v.
            soup_find e (resp_text req) (filter (\<lambda>kv. fst kv \<noteq> ''link'') (heap s1 ! a)) = Some img \<and>
            map_of img link = Some v \<longrightarrow>
              fst (get_post_image_url e p s) = Inr (Some v) \<and>
              (resolved_kind v = SingleImage \<longleftrightarrow> \<not> str_contains ''/zip'' v))"
  using assms
  by (auto simp: page_url_resolution get_direct_image_url_fetched resolved_kind_def)

lemma page_extraction_example:
  "fst (get_post_image_url fixture_env (link_post ''http://site.example/view'' ''a'') builtin_state)
     = Inr (Some ''http://site.example/i.jpg'') \<and>
   resolved_kind ''http://site.example/i.jpg'' = SingleImage \<and>
   fst (get_post_image_url fixture_env (link_post ''http://site.example/empty'' ''b'') builtin_state)
     = Inl AttributeError"
proof -
  let ?s1 = "builtin_state\<lparr>requests := [''http://site.example/view'']\<rparr>"
  let ?req = "\<lparr>ok = True, resp_url = ''http://site.example/view'', resp_text = ''view'', content = []\<rparr>"
  let ?p = "link_post ''http://site.example/view'' ''a''"
  let ?img = "[(''name'', ''meta''), (''property'', ''og:image''), (''content'', ''http://site.example/i.jpg'')]"
  have 1: "\<not> endswith_any (lower (post_url ?p)) IMAGE_FORMATS" by code_simp
  have 2: "\<not> str_contains ''/a/'' (post_url ?p)" by code_simp
  have 3: "get_request fixture_env (Some (post_url ?p)) builtin_state = (Inr ?req, ?s1)"
    by (simp add: get_request_def fixture_defs str_defs builtin_state_def Let_def)
  have 4: "selectors_get ?s1 (netloc fixture_env (post_url ?p)) = Inr 0"
    by (simp add: selectors_get_def fixture_defs builtin_state_def)
  have 5: "map_of (heap ?s1 ! 0) ''link'' = Some ''content''"
    by (simp add: builtin_state_def default_rule_def)
  have 6: "soup_find fixture_env (resp_text ?req) (filter (\<lambda>kv. fst kv \<noteq> ''link'') (heap ?s1 ! 0)) = Some ?img"
    by (simp add: fixture_defs builtin_state_def default_rule_def)
  have 7: "map_of ?img ''content'' = Some ''http://site.example/i.jpg''" by simp
  have 8: "\<not> str_contains ''/zip'' ''http://site.example/i.jpg''" by code_simp
  have 9: "fst (get_post_image_url fixture_env (link_post ''http://site.example/empty'' ''b'') builtin_state)
     = Inl AttributeError" by code_simp
  from page_extraction [OF 1 2 3 4 5] 6 7 8
  have "fst (get_post_image_url fixture_env ?p builtin_state) = Inr (Some ''http://site.example/i.jpg'')
      \<and> resolved_kind ''http://site.example/i.jpg'' = SingleImage"
    by blast
  with 9 show ?thesis by blast
qed

text \<open>
  A page whose \<open>og:image\<close> is a URL with \<open>/zip\<close> in it: the router handles the
  discovered URL as an album.
\<close>

lemma page_image_with_zip:
  "\<not> endswith_any (lower ''http://site.example/cover'') IMAGE_FORMATS \<and>
   \<not> str_contains ''/a/'' ''http://site.example/cover'' \<and>
   fst (get_post_image_url fixture_env (link_post ''http://site.example/cover'' ''c'') builtin_state)
     = Inr (Some ''http://cdn.example/zip/cover'') \<and>
   resolved_kind ''http://cdn.example/zip/cover'' \<noteq> SingleImage \<and>
   stdout (snd (route_post fixture_env (link_post ''http://site.example/cover'' ''c'')
                  False True False ''pics'' builtin_state))
     = [''[-] Ignoring album: c'']"
  by code_simp

text \<open>
  Claim C3. A fetched page fails with \<open>ExtractionFailed\<close> (the \<open>AttributeError\<close> that
  the router reports as a link that could not be extracted) when no element matches, and
  also when the matched element lacks the configured link attribute. The program does
  not do the second: at a page whose \<open>og:image\<close> element has no \<open>content\<close>,
  \<open>img.get(link)\<close> is \<open>None\<close> and the resolver returns it without raising; the
  router passes \<open>None\<close> to \<open>ignore_post\<close>, whose \<open>'/zip' in url\<close> raises
  \<open>TypeError\<close>; no handler catches it, nothing is printed and the next post is not
  processed.
\<close>

theorem absent_link_attribute_returns_None:
  "fst (get_post_image_url fixture_env (link_post ''http://site.example/bare'' ''d'') builtin_state)
     = Inr None \<and>
   fst (route_posts fixture_env
          [link_post ''http://site.example/bare'' ''d'', link_post ''http://i.example/e.jpg'' ''e'']
          True True False ''pics'' builtin_state) = Inl TypeError \<and>
   stdout (snd (route_posts fixture_env
          [link_post ''http://site.example/bare'' ''d'', link_post ''http://i.example/e.jpg'' ''e'']
          True True False ''pics'' builtin_state)) = [] \<and>
   disk (snd (route_posts fixture_env
          [link_post ''http://site.example/bare'' ''d'', link_post ''http://i.example/e.jpg'' ''e'']
          True True False ''pics'' builtin_state)) = []"
  by code_simp

section \<open>Errors at the per-post boundary\<close>

text \<open>
  Claim C4. For a post that passes the first two filter rules: a \<open>ConnectionError\<close>
  raised while resolving it, an \<open>AttributeError\<close> raised while resolving it, and a
  \<open>ConnectionError\<close> raised while fetching the resolved URL are caught; one line that
  starts with \<open>[-]\<close> is printed and the run continues with the next post. A
  \<open>BadZipFile\<close> raised by \<open>extract_album\<close> is not caught: \<open>route_posts\<close> ends with it.
\<close>

theorem caught_errors_skip_post:
  assumes "\<not> ((stickied p \<or> is_self p) \<or> (over_18 p \<and> \<not> nsfw))"
  shows "(\<forall>s1. get_post_image_url e p s = (Inl ConnectionError, s1) \<longrightarrow>
            route_posts e (p # ps) albums gifs nsfw path s =
              route_posts e ps albums gifs nsfw path
                (print (''[-] Encountered bad url: '' @ post_url p) s1)) \<and>
         (\<forall>s1. get_post_image_url e p s = (Inl AttributeError, s1) \<longrightarrow>
            route_posts e (p # ps) albums gifs nsfw path s =
              route_posts e ps albums gifs nsfw path
                (print (''[-] Could not extract link from '' @ post_url p) s1)) \<and>
         (\<forall>url s1 s2 s3.
            get_post_image_url e p s = (Inr url, s1) \<and>
            ignore_post url albums gifs (title p) s1 = (Inr False, s2) \<and>
            get_request e url s2 = (Inl ConnectionError, s3) \<longrightarrow>
              route_posts e (p # ps) albums gifs nsfw path s =
                route_posts e ps albums gifs nsfw path
                  (print (''[-] Encountered bad url: '' @ py_str url) s3)) \<and>
         (\<forall>url s1 s2 req s3 s4.
            get_post_image_url e p s = (Inr url, s1) \<and>
            ignore_post url albums gifs (title p) s1 = (Inr False, s2) \<and>
            get_request e url s2 = (Inr req, s3) \<and>
            zip_in url = Inr True \<and>
            extract_album e req path s3 = (Inl BadZipFile, s4) \<longrightarrow>
              route_posts e (p # ps) albums gifs nsfw path s = (Inl BadZipFile, s4))"
proof -
  have c: "((stickied p \<or> is_self p) \<or> (over_18 p \<and> \<not> nsfw)) = False"
    using assms by blast
  show ?thesis unfolding route_posts.simps route_post_def c if_False by simp
qed

theorem caught_errors_skip_post_witness:
  "route_posts fixture_env
     [link_post ''http://gone.example/page'' ''a'', link_post ''http://i.example/b.jpg'' ''b'']
     True True False ''pics'' builtin_state =
   route_posts fixture_env [link_post ''http://i.example/b.jpg'' ''b''] True True False ''pics''
     (print ''[-] Encountered bad url: http://gone.example/page''
        (builtin_state\<lparr>requests := [''http://gone.example/page'']\<rparr>)) \<and>
   stdout (snd (route_posts fixture_env
     [link_post ''http://gone.example/page'' ''a'', link_post ''http://i.example/b.jpg'' ''b'']
     True True False ''pics'' builtin_state))
     = [''[-] Encountered bad url: http://gone.example/page'', ''[+] Downloaded b''] \<and>
   route_posts fixture_env
     [link_post ''http://site.example/empty'' ''c'', link_post ''http://i.example/b.jpg'' ''b'']
     True True False ''pics'' builtin_state =
   route_posts fixture_env [link_post ''http://i.example/b.jpg'' ''b''] True True False ''pics''
     (print ''[-] Could not extract link from http://site.example/empty''
        (snd (get_post_image_url fixture_env (link_post ''http://site.example/empty'' ''c'')
                builtin_state))) \<and>
   route_posts fixture_env
     [link_post ''http://gone.example/pic.jpg'' ''d'', link_post ''http://i.example/b.jpg'' ''b'']
     True True False ''pics'' builtin_state =
   route_posts fixture_env [link_post ''http://i.example/b.jpg'' ''b''] True True False ''pics''
     (print ''[-] Encountered bad url: http://gone.example/pic.jpg''
        (builtin_state\<lparr>requests := [''http://gone.example/pic.jpg'']\<rparr>)) \<and>
   route_posts fixture_env
     [link_post ''http://imgur.com/a/abc'' ''e'', link_post ''http://i.example/b.jpg'' ''b'']
     True True False ''pics'' builtin_state =
   (Inl BadZipFile, builtin_state\<lparr>requests := [''http://imgur.com/a/abc/zip'']\<rparr>)"
proof -
  let ?b = "link_post ''http://i.example/b.jpg'' ''b''"
  let ?p = "link_post ''http://gone.example/page'' ''a''"
  let ?s1 = "builtin_state\<lparr>requests := [''http://gone.example/page'']\<rparr>"
  have 1: "\<not> ((stickied (link_post u t) \<or> is_self (link_post u t)) \<or>
               (over_18 (link_post u t) \<and> \<not> False))" for u t
    by (simp add: link_post_def)
  have u: "post_url (link_post u t) = u" and t: "title (link_post u t) = t" for u t
    by (simp_all add: link_post_def)
  have 2: "get_post_image_url fixture_env ?p builtin_state = (Inl ConnectionError, ?s1)"
    by (simp add: get_post_image_url_def get_direct_image_url_def get_request_def fixture_defs
        str_defs builtin_state_def Let_def)
  have 4: "stdout (snd (route_posts fixture_env [?p, ?b] True True False ''pics'' builtin_state))
     = [''[-] Encountered bad url: http://gone.example/page'', ''[+] Downloaded b'']"
    by code_simp
  from caught_errors_skip_post [OF 1 [of "''http://gone.example/page''" "''a''"], of
      fixture_env builtin_state "[?b]" True True "''pics''"] 2
  have a: "route_posts fixture_env [?p, ?b] True True False ''pics'' builtin_state =
     route_posts fixture_env [?b] True True False ''pics''
       (print (''[-] Encountered bad url: '' @ post_url ?p) ?s1)"
    by blast
  let ?q = "link_post ''http://site.example/empty'' ''c''"
  have "fst (get_post_image_url fixture_env ?q builtin_state) = Inl AttributeError"
    by code_simp
  then have 5: "get_post_image_url fixture_env ?q builtin_state
                  = (Inl AttributeError, snd (get_post_image_url fixture_env ?q builtin_state))"
    by (simp add: prod_eq_iff)
  from caught_errors_skip_post [OF 1 [of "''http://site.example/empty''" "''c''"], of
      fixture_env builtin_state "[?b]" True True "''pics''"] 5
  have b: "route_posts fixture_env [?q, ?b] True True False ''pics'' builtin_state =
     route_posts fixture_env [?b] True True False ''pics''
       (print (''[-] Could not extract link from '' @ post_url ?q)
          (snd (get_post_image_url fixture_env ?q builtin_state)))"
    by blast
  let ?r = "link_post ''http://gone.example/pic.jpg'' ''d''"
  let ?s3 = "builtin_state\<lparr>requests := [''http://gone.example/pic.jpg'']\<rparr>"
  have 6: "get_post_image_url fixture_env ?r builtin_state
             = (Inr (Some ''http://gone.example/pic.jpg''), builtin_state)"
    by (simp add: get_post_image_url_def link_post_def str_defs)
  have 7: "ignore_post (Some ''http://gone.example/pic.jpg'') True True (title ?r) builtin_state
             = (Inr False, builtin_state)"
    by (simp add: ignore_post_def zip_in_def str_defs)
  have 8: "get_request fixture_env (Some ''http://gone.example/pic.jpg'') builtin_state
             = (Inl ConnectionError, ?s3)"
    by (simp add: get_request_def fixture_defs str_defs builtin_state_def Let_def)
  from caught_errors_skip_post [OF 1 [of "''http://gone.example/pic.jpg''" "''d''"], of
      fixture_env builtin_state "[?b]" True True "''pics''"] 6 7 8
  have c: "route_posts fixture_env [?r, ?b] True True False ''pics'' builtin_state =
     route_posts fixture_env [?b] True True False ''pics''
       (print (''[-] Encountered bad url: '' @ py_str (Some ''http://gone.example/pic.jpg'')) ?s3)"
    by blast
  let ?z = "link_post ''http://imgur.com/a/abc'' ''e''"
  let ?s4 = "builtin_state\<lparr>requests := [''http://imgur.com/a/abc/zip'']\<rparr>"
  let ?req = "\<lparr>ok = True, resp_url = ''http://imgur.com/a/abc/zip'', resp_text = [],
               content = ''not an archive''\<rparr>"
  have 9: "get_post_image_url fixture_env ?z builtin_state
             = (Inr (Some ''http://imgur.com/a/abc/zip''), builtin_state)"
    by (simp add: get_post_image_url_def link_post_def str_defs)
  have 10: "ignore_post (Some ''http://imgur.com/a/abc/zip'') True True (title ?z) builtin_state
             = (Inr False, builtin_state)"
    by (simp add: ignore_post_def zip_in_def str_defs)
  have 11: "get_request fixture_env (Some ''http://imgur.com/a/abc/zip'') builtin_state
             = (Inr ?req, ?s4)"
    by (simp add: get_request_def fixture_defs str_defs builtin_state_def Let_def)
  have 12: "zip_in (Some ''http://imgur.com/a/abc/zip'') = Inr True"
    by (simp add: zip_in_def str_defs)
  have 13: "extract_album fixture_env ?req ''pics'' ?s4 = (Inl BadZipFile, ?s4)"
    by (simp add: extract_album_def fixture_env_def)
  from caught_errors_skip_post [OF 1 [of "''http://imgur.com/a/abc''" "''e''"], of
      fixture_env builtin_state "[?b]" True True "''pics''"] 9 10 11 12 13
  have d: "route_posts fixture_env [?z, ?b] True True False ''pics'' builtin_state
             = (Inl BadZipFile, ?s4)"
    by blast
  show ?thesis using a b c d 4 unfolding u by (simp add: py_str_def)
qed

text \<open>
  The claim as stated (a malformed archive is logged and skipped) fails at an album whose
  body is not a zip file: \<open>route_posts\<close> raises \<open>BadZipFile\<close>, nothing is printed and
  the next post is not processed.
\<close>

theorem malformed_archive_counterexample:
  "fst (route_posts fixture_env
          [link_post ''http://imgur.com/a/abc'' ''a'', link_post ''http://i.example/b.jpg'' ''b'']
          True True False ''pics'' builtin_state) = Inl BadZipFile \<and>
   stdout (snd (route_posts fixture_env
          [link_post ''http://imgur.com/a/abc'' ''a'', link_post ''http://i.example/b.jpg'' ''b'']
          True True False ''pics'' builtin_state)) = [] \<and>
   disk (snd (route_posts fixture_env
          [link_post ''http://imgur.com/a/abc'' ''a'', link_post ''http://i.example/b.jpg'' ''b'']
          True True False ''pics'' builtin_state)) = [] \<and>
   requests (snd (route_posts fixture_env
          [link_post ''http://imgur.com/a/abc'' ''a'', link_post ''http://i.example/b.jpg'' ''b'']
          True True False ''pics'' builtin_state)) = [''http://imgur.com/a/abc/zip'']"
  by code_simp

text \<open>
  An exception of the \<open>requests\<close> library (the host cannot be reached) is not the
  builtin \<open>ConnectionError\<close> and is not caught either.
\<close>

lemma network_failure_not_caught:
  "fst (route_posts fixture_env
          [link_post ''http://down.example/page'' ''a'', link_post ''http://i.example/b.jpg'' ''b'']
          True True False ''pics'' builtin_state) = Inl RequestException \<and>
   stdout (snd (route_posts fixture_env
          [link_post ''http://down.example/page'' ''a'', link_post ''http://i.example/b.jpg'' ''b'']
          True True False ''pics'' builtin_state)) = []"
  by code_simp

text \<open>
  Claim C5. A rule without a \<open>link\<close> entry is loaded as it is. When it is used, after
  the page has been fetched, \<open>.pop('link')\<close> raises \<open>KeyError\<close>; no handler of
  \<open>route_posts\<close> catches it: the run ends with \<open>KeyError\<close>, the remaining posts are
  not processed and no line is printed.
\<close>

theorem missing_link_KeyError_at_use:
  assumes "\<not> ((stickied p \<or> is_self p) \<or> (over_18 p \<and> \<not> nsfw))"
      and "\<not> endswith_any (lower (post_url p)) IMAGE_FORMATS"
      and "\<not> str_contains ''/a/'' (post_url p)"
      and "get_request e (Some (post_url p)) s = (Inr req, s1)"
      and "selectors_get s1 (netloc e (post_url p)) = Inr a"
      and "map_of (heap s1 ! a) ''link'' = None"
  shows "fst (get_post_image_url e p s) = Inl KeyError \<and>
         route_posts e (p # ps) albums gifs nsfw path s
           = (Inl KeyError, s1\<lparr>heap := heap s1 @ [heap s1 ! a]\<rparr>) \<and>
         stdout (snd (route_posts e (p # ps) albums gifs nsfw path s)) = stdout s1"
proof -
  have c: "((stickied p \<or> is_self p) \<or> (over_18 p \<and> \<not> nsfw)) = False"
    using assms(1) by blast
  have g: "get_post_image_url e p s = (Inl KeyError, s1\<lparr>heap := heap s1 @ [heap s1 ! a]\<rparr>)"
    using assms(2-6) by (simp add: page_url_resolution get_direct_image_url_fetched)
  show ?thesis unfolding route_posts.simps route_post_def c if_False g by simp
qed

theorem missing_link_KeyError_at_use_witness:
  "table_of (module_init (Loaded [(''bad.example'', [(''name'', ''img'')])])) ''bad.example''
     = Some [(''name'', ''img'')] \<and>
   fst (get_post_image_url fixture_env (link_post ''http://bad.example/page'' ''a'')
          (module_init (Loaded [(''bad.example'', [(''name'', ''img'')])]))) = Inl KeyError \<and>
   fst (route_posts fixture_env
          [link_post ''http://bad.example/page'' ''a'', link_post ''http://i.example/b.jpg'' ''b'']
          True True False ''pics'' (module_init (Loaded [(''bad.example'', [(''name'', ''img'')])])))
     = Inl KeyError"
proof -
  let ?s = "module_init (Loaded [(''bad.example'', [(''name'', ''img'')])])"
  let ?s1 = "?s\<lparr>requests := [''http://bad.example/page'']\<rparr>"
  let ?req = "\<lparr>ok = True, resp_url = ''http://bad.example/page'', resp_text = ''view'', content = []\<rparr>"
  let ?p = "link_post ''http://bad.example/page'' ''a''"
  have 0: "table_of ?s ''bad.example'' = Some [(''name'', ''img'')]" by code_simp
  have 1: "\<not> ((stickied ?p \<or> is_self ?p) \<or> (over_18 ?p \<and> \<not> False))"
    by (simp add: link_post_def)
  have 2: "\<not> endswith_any (lower (post_url ?p)) IMAGE_FORMATS" by code_simp
  have 3: "\<not> str_contains ''/a/'' (post_url ?p)" by code_simp
  have 4: "get_request fixture_env (Some (post_url ?p)) ?s = (Inr ?req, ?s1)"
    by (simp add: get_request_def fixture_defs str_defs module_init_def load_selectors_def
        builtin_state_def Let_def)
  have 5: "selectors_get ?s1 (netloc fixture_env (post_url ?p)) = Inr 4"
    by (simp add: selectors_get_def fixture_defs module_init_def load_selectors_def
        builtin_state_def)
  have 6: "map_of (heap ?s1 ! 4) ''link'' = None"
    by (simp add: module_init_def load_selectors_def builtin_state_def)
  from missing_link_KeyError_at_use [OF 1 2 3 4 5 6,
      of "[link_post ''http://i.example/b.jpg'' ''b'']" True True "''pics''"]
  have "fst (get_post_image_url fixture_env ?p ?s) = Inl KeyError \<and>
        fst (route_posts fixture_env [?p, link_post ''http://i.example/b.jpg'' ''b'']
               True True False ''pics'' ?s) = Inl KeyError"
    by simp
  with 0 show ?thesis by blast
qed

text \<open>
  The claim as stated (handled like the other resolution failures, not fatal beyond that
  post) fails: the post after the one whose rule has no \<open>link\<close> is never requested.
\<close>

theorem missing_link_fatal_counterexample:
  "fst (route_posts fixture_env
          [link_post ''http://bad.example/page'' ''a'', link_post ''http://i.example/b.jpg'' ''b'']
          True True False ''pics'' (module_init (Loaded [(''bad.example'', [(''name'', ''img'')])])))
     = Inl KeyError \<and>
   stdout (snd (route_posts fixture_env
          [link_post ''http://bad.example/page'' ''a'', link_post ''http://i.example/b.jpg'' ''b'']
          True True False ''pics'' (module_init (Loaded [(''bad.example'', [(''name'', ''img'')])]))))
     = [] \<and>
   disk (snd (route_posts fixture_env
          [link_post ''http://bad.example/page'' ''a'', link_post ''http://i.example/b.jpg'' ''b'']
          True True False ''pics'' (module_init (Loaded [(''bad.example'', [(''name'', ''img'')])]))))
     = [] \<and>
   requests (snd (route_posts fixture_env
          [link_post ''http://bad.example/page'' ''a'', link_post ''http://i.example/b.jpg'' ''b'']
          True True False ''pics'' (module_init (Loaded [(''bad.example'', [(''name'', ''img'')])]))))
     = [''http://bad.example/page'']"
  by code_simp

section \<open>The filter\<close>

text \<open>
  Claim C6. \<open>ignore_post\<close> skips a resolved URL exactly when it contains \<open>/zip\<close> and
  albums are disallowed, or it ends in \<open>.gif\<close> or \<open>.gifv\<close> and gifs are disallowed. So
  a URL that ends in \<open>.gifv\<close> and does not contain \<open>/zip\<close> is skipped exactly when the
  gifs flag is false, and a URL that contains \<open>/zip\<close> and does not end in \<open>.gif\<close> or
  \<open>.gifv\<close> is skipped exactly when the albums flag is false. A URL that is not skipped
  leaves the state as it was.
\<close>

theorem ignore_post_policy:
  "fst (ignore_post (Some u) albums gifs t s) =
     Inr ((str_contains ''/zip'' u \<and> \<not> albums) \<or> (endswith_any u [''.gif'', ''.gifv''] \<and> \<not> gifs)) \<and>
   (endswith u ''.gifv'' \<and> \<not> str_contains ''/zip'' u \<longrightarrow>
      fst (ignore_post (Some u) albums gifs t s) = Inr (\<not> gifs)) \<and>
   (str_contains ''/zip'' u \<and> \<not> endswith_any u [''.gif'', ''.gifv''] \<longrightarrow>
      fst (ignore_post (Some u) albums gifs t s) = Inr (\<not> albums)) \<and>
   (fst (ignore_post (Some u) albums gifs t s) = Inr False \<longrightarrow>
      snd (ignore_post (Some u) albums gifs t s) = s)"
  by (auto simp: ignore_post_def zip_in_def py_str_def endswith_any_def)

theorem ignore_post_policy_witness:
  "endswith ''http://h/x.gifv'' ''.gifv'' \<and> \<not> str_contains ''/zip'' ''http://h/x.gifv'' \<and>
   fst (ignore_post (Some ''http://h/x.gifv'') True False ''t'' builtin_state) = Inr True \<and>
   fst (ignore_post (Some ''http://h/x.gifv'') True True ''t'' builtin_state) = Inr False \<and>
   str_contains ''/zip'' ''http://imgur.com/a/xyz/zip'' \<and>
   \<not> endswith_any ''http://imgur.com/a/xyz/zip'' [''.gif'', ''.gifv''] \<and>
   fst (ignore_post (Some ''http://imgur.com/a/xyz/zip'') False True ''t'' builtin_state) = Inr True \<and>
   fst (ignore_post (Some ''http://imgur.com/a/xyz/zip'') True True ''t'' builtin_state) = Inr False"
proof -
  have 1: "endswith ''http://h/x.gifv'' ''.gifv'' \<and> \<not> str_contains ''/zip'' ''http://h/x.gifv''"
    by code_simp
  have 2: "str_contains ''/zip'' ''http://imgur.com/a/xyz/zip'' \<and>
           \<not> endswith_any ''http://imgur.com/a/xyz/zip'' [''.gif'', ''.gifv'']"
    by code_simp
  from 1 ignore_post_policy [of "''http://h/x.gifv''" True False "''t''" builtin_state]
  have "fst (ignore_post (Some ''http://h/x.gifv'') True False ''t'' builtin_state) = Inr (\<not> False)"
    by blast
  then have 3: "fst (ignore_post (Some ''http://h/x.gifv'') True False ''t'' builtin_state) = Inr True"
    by simp
  from 1 ignore_post_policy [of "''http://h/x.gifv''" True True "''t''" builtin_state]
  have "fst (ignore_post (Some ''http://h/x.gifv'') True True ''t'' builtin_state) = Inr (\<not> True)"
    by blast
  then have 4: "fst (ignore_post (Some ''http://h/x.gifv'') True True ''t'' builtin_state) = Inr False"
    by simp
  from 2 ignore_post_policy [of "''http://imgur.com/a/xyz/zip''" False True "''t''" builtin_state]
  have "fst (ignore_post (Some ''http://imgur.com/a/xyz/zip'') False True ''t'' builtin_state)
          = Inr (\<not> False)"
    by blast
  then have 5: "fst (ignore_post (Some ''http://imgur.com/a/xyz/zip'') False True ''t'' builtin_state)
          = Inr True"
    by simp
  from 2 ignore_post_policy [of "''http://imgur.com/a/xyz/zip''" True True "''t''" builtin_state]
  have "fst (ignore_post (Some ''http://imgur.com/a/xyz/zip'') True True ''t'' builtin_state)
          = Inr (\<not> True)"
    by blast
  then have 6: "fst (ignore_post (Some ''http://imgur.com/a/xyz/zip'') True True ''t'' builtin_state)
          = Inr False"
    by simp
  show ?thesis using 1 2 3 4 5 6 by blast
qed

text \<open>
  The claim as stated fails at a URL that both contains \<open>/zip\<close> and ends in a gif
  extension: it is skipped with gifs allowed when albums are not, and skipped with albums
  allowed when gifs are not.
\<close>

theorem gif_and_zip_counterexample:
  "endswith ''http://h/zip/x.gifv'' ''.gifv'' \<and>
   fst (ignore_post (Some ''http://h/zip/x.gifv'') False True ''t'' builtin_state) = Inr True \<and>
   str_contains ''/zip'' ''http://h/zip/x.gif'' \<and>
   fst (ignore_post (Some ''http://h/zip/x.gif'') True False ''t'' builtin_state) = Inr True"
  by code_simp

lemma get_request_logs:
  "get_request e u s = (r, s') \<Longrightarrow> stdout s' = stdout s \<and> disk s' = disk s"
  by (auto simp: get_request_def Let_def split: option.splits http_result.splits if_splits)

lemma get_direct_image_url_logs:
  assumes "get_direct_image_url e u s = (r, s')"
  shows "stdout s' = stdout s \<and> disk s' = disk s"
proof -
  obtain q s1 where g: "get_request e (Some u) s = (q, s1)" by (cases "get_request e (Some u) s")
  then have l: "stdout s1 = stdout s \<and> disk s1 = disk s" by (rule get_request_logs)
  have "stdout s' = stdout s1 \<and> disk s' = disk s1"
    using assms g
    by (auto simp: get_direct_image_url_def dict_copy_def dict_pop_def
        split: sum.splits option.splits)
  then show ?thesis using l by simp
qed

lemma get_post_image_url_logs:
  "get_post_image_url e p s = (r, s') \<Longrightarrow> stdout s' = stdout s \<and> disk s' = disk s"
  by (auto simp: get_post_image_url_def Let_def split: if_splits dest: get_direct_image_url_logs)

text \<open>
  Claim C7. A post skipped because it is stickied, a self post, or adult content that the
  policy disallows, prints nothing and leaves the state as it was. A post skipped by
  \<open>ignore_post\<close> prints exactly one line since the post was taken up: \<open>[-] Ignoring
  album:\<close> and the title of the post when the resolved URL contains \<open>/zip\<close> and albums
  are disallowed, otherwise \<open>[-] Ignoring gif:\<close> and the title when the resolved URL
  ends in \<open>.gif\<close> or \<open>.gifv\<close> and gifs are disallowed; \<open>ignore_post\<close> skips in no
  other case. The resolved URL is not printed.
\<close>

theorem skip_logging:
  "(((stickied p \<or> is_self p) \<or> (over_18 p \<and> \<not> nsfw)) \<longrightarrow>
      route_post e p albums gifs nsfw path s = (Inr (), s)) \<and>
   (\<forall>u s1.
      \<not> ((stickied p \<or> is_self p) \<or> (over_18 p \<and> \<not> nsfw)) \<and>
      get_post_image_url e p s = (Inr (Some u), s1) \<and>
      str_contains ''/zip'' u \<and> \<not> albums \<longrightarrow>
        route_post e p albums gifs nsfw path s
          = (Inr (), print (''[-] Ignoring album: '' @ title p) s1) \<and>
        stdout (snd (route_post e p albums gifs nsfw path s))
          = stdout s @ [''[-] Ignoring album: '' @ title p]) \<and>
   (\<forall>u s1.
      \<not> ((stickied p \<or> is_self p) \<or> (over_18 p \<and> \<not> nsfw)) \<and>
      get_post_image_url e p s = (Inr (Some u), s1) \<and>
      \<not> (str_contains ''/zip'' u \<and> \<not> albums) \<and>
      endswith_any u [''.gif'', ''.gifv''] \<and> \<not> gifs \<longrightarrow>
        route_post e p albums gifs nsfw path s
          = (Inr (), print (''[-] Ignoring gif: '' @ title p) s1) \<and>
        stdout (snd (route_post e p albums gifs nsfw path s))
          = stdout s @ [''[-] Ignoring gif: '' @ title p]) \<and>
   (\<forall>url s1 s2.
      ignore_post url albums gifs (title p) s1 = (Inr True, s2) \<longrightarrow>
        (\<exists>u. url = Some u \<and>
           ((str_contains ''/zip'' u \<and> \<not> albums) \<or>
            (endswith_any u [''.gif'', ''.gifv''] \<and> \<not> gifs))))"
proof (intro conjI allI impI)
  assume "(stickied p \<or> is_self p) \<or> (over_18 p \<and> \<not> nsfw)"
  then have c: "((stickied p \<or> is_self p) \<or> (over_18 p \<and> \<not> nsfw)) = True" by blast
  show "route_post e p albums gifs nsfw path s = (Inr (), s)"
    unfolding route_post_def c if_True by (rule refl)
next
  fix u s1
  assume a: "\<not> ((stickied p \<or> is_self p) \<or> (over_18 p \<and> \<not> nsfw)) \<and>
      get_post_image_url e p s = (Inr (Some u), s1) \<and> str_contains ''/zip'' u \<and> \<not> albums"
  then have c: "((stickied p \<or> is_self p) \<or> (over_18 p \<and> \<not> nsfw)) = False" by blast
  have g: "get_post_image_url e p s = (Inr (Some u), s1)" using a by blast
  have i: "ignore_post (Some u) albums gifs (title p) s1
             = (Inr True, print (''[-] Ignoring album: '' @ title p) s1)"
    using a by (simp add: ignore_post_def zip_in_def)
  show r: "route_post e p albums gifs nsfw path s
          = (Inr (), print (''[-] Ignoring album: '' @ title p) s1)"
    unfolding route_post_def c if_False by (simp add: g i)
  show "stdout (snd (route_post e p albums gifs nsfw path s))
          = stdout s @ [''[-] Ignoring album: '' @ title p]"
    using get_post_image_url_logs [OF g] by (simp add: r print_def)
next
  fix u s1
  assume a: "\<not> ((stickied p \<or> is_self p) \<or> (over_18 p \<and> \<not> nsfw)) \<and>
      get_post_image_url e p s = (Inr (Some u), s1) \<and>
      \<not> (str_contains ''/zip'' u \<and> \<not> albums) \<and>
      endswith_any u [''.gif'', ''.gifv''] \<and> \<not> gifs"
  then have c: "((stickied p \<or> is_self p) \<or> (over_18 p \<and> \<not> nsfw)) = False" by blast
  have g: "get_post_image_url e p s = (Inr (Some u), s1)" using a by blast
  have i: "ignore_post (Some u) albums gifs (title p) s1
             = (Inr True, print (''[-] Ignoring gif: '' @ title p) s1)"
    using a by (auto simp: ignore_post_def zip_in_def py_str_def)
  show r: "route_post e p albums gifs nsfw path s
          = (Inr (), print (''[-] Ignoring gif: '' @ title p) s1)"
    unfolding route_post_def c if_False by (simp add: g i)
  show "stdout (snd (route_post e p albums gifs nsfw path s))
          = stdout s @ [''[-] Ignoring gif: '' @ title p]"
    using get_post_image_url_logs [OF g] by (simp add: r print_def)
next
  fix url s1 s2
  assume "ignore_post url albums gifs (title p) s1 = (Inr True, s2)"
  then show "\<exists>u. url = Some u \<and>
           ((str_contains ''/zip'' u \<and> \<not> albums) \<or>
            (endswith_any u [''.gif'', ''.gifv''] \<and> \<not> gifs))"
    by (cases url) (auto simp: ignore_post_def zip_in_def py_str_def split: if_splits)
qed

theorem skip_logging_witness:
  "route_post fixture_env
     \<lparr>post_url = ''http://i.example/a.jpg'', title = ''pinned'', stickied = True,
      is_self = False, over_18 = False\<rparr> True True True ''pics'' builtin_state
     = (Inr (), builtin_state) \<and>
   route_post fixture_env
     \<lparr>post_url = ''http://i.example/b.jpg'', title = ''adult'', stickied = False,
      is_self = False, over_18 = True\<rparr> True True False ''pics'' builtin_state
     = (Inr (), builtin_state) \<and>
   route_post fixture_env (link_post ''http://imgur.com/a/xyz'' ''trip'') False False True ''pics''
       builtin_state
     = (Inr (), print ''[-] Ignoring album: trip'' builtin_state) \<and>
   stdout (snd (route_post fixture_env (link_post ''http://imgur.com/a/xyz'' ''trip'')
                  False False True ''pics'' builtin_state))
     = [''[-] Ignoring album: trip''] \<and>
   route_post fixture_env (link_post ''http://h/x.gif'' ''funny'') True False True ''pics''
       builtin_state
     = (Inr (), print ''[-] Ignoring gif: funny'' builtin_state) \<and>
   stdout (snd (route_post fixture_env (link_post ''http://h/x.gif'' ''funny'')
                  True False True ''pics'' builtin_state))
     = [''[-] Ignoring gif: funny'']"
proof -
  let ?p = "\<lparr>post_url = ''http://i.example/a.jpg'', title = ''pinned'', stickied = True,
      is_self = False, over_18 = False\<rparr>"
  let ?a = "\<lparr>post_url = ''http://i.example/b.jpg'', title = ''adult'', stickied = False,
      is_self = False, over_18 = True\<rparr>"
  let ?z = "link_post ''http://imgur.com/a/xyz'' ''trip''"
  let ?q = "link_post ''http://h/x.gif'' ''funny''"
  have t: "title (link_post u t) = t" for u t by (simp add: link_post_def)
  have 1: "(stickied ?p \<or> is_self ?p) \<or> (over_18 ?p \<and> \<not> True)" by simp
  have 2: "(stickied ?a \<or> is_self ?a) \<or> (over_18 ?a \<and> \<not> False)" by simp
  have 3: "\<not> ((stickied (link_post u t) \<or> is_self (link_post u t)) \<or>
               (over_18 (link_post u t) \<and> \<not> True))" for u t
    by (simp add: link_post_def)
  have 4: "get_post_image_url fixture_env ?z builtin_state
             = (Inr (Some ''http://imgur.com/a/xyz/zip''), builtin_state)"
    by (simp add: get_post_image_url_def link_post_def str_defs)
  have 5: "str_contains ''/zip'' ''http://imgur.com/a/xyz/zip''" by code_simp
  have 6: "get_post_image_url fixture_env ?q builtin_state
             = (Inr (Some ''http://h/x.gif''), builtin_state)"
    by (simp add: get_post_image_url_def link_post_def str_defs)
  have 7: "\<not> str_contains ''/zip'' ''http://h/x.gif''" by code_simp
  have 8: "endswith_any ''http://h/x.gif'' [''.gif'', ''.gifv'']" by code_simp
  from skip_logging [of ?p True fixture_env True True "''pics''" builtin_state] 1
  have a: "route_post fixture_env ?p True True True ''pics'' builtin_state = (Inr (), builtin_state)"
    by blast
  from skip_logging [of ?a False fixture_env True True "''pics''" builtin_state] 2
  have b: "route_post fixture_env ?a True True False ''pics'' builtin_state = (Inr (), builtin_state)"
    by blast
  from skip_logging [of ?z True fixture_env False False "''pics''" builtin_state]
    3 [of "''http://imgur.com/a/xyz''" "''trip''"] 4 5
  have c: "route_post fixture_env ?z False False True ''pics'' builtin_state
             = (Inr (), print (''[-] Ignoring album: '' @ title ?z) builtin_state) \<and>
           stdout (snd (route_post fixture_env ?z False False True ''pics'' builtin_state))
             = stdout builtin_state @ [''[-] Ignoring album: '' @ title ?z]"
    by blast
  from skip_logging [of ?q True fixture_env True False "''pics''" builtin_state]
    3 [of "''http://h/x.gif''" "''funny''"] 6 7 8
  have d: "route_post fixture_env ?q True False True ''pics'' builtin_state
             = (Inr (), print (''[-] Ignoring gif: '' @ title ?q) builtin_state) \<and>
           stdout (snd (route_post fixture_env ?q True False True ''pics'' builtin_state))
             = stdout builtin_state @ [''[-] Ignoring gif: '' @ title ?q]"
    by blast
  show ?thesis using a b c d unfolding t by (simp add: builtin_state_logs print_def)
qed

text \<open>
  The claim as stated (every skipped post produces a log line) fails at a stickied post and
  at an adult post with the adult policy off: nothing is printed. The line of a gif skip
  holds the title and not the URL.
\<close>

theorem silent_skip_counterexample:
  "stickied \<lparr>post_url = ''http://i.example/a.jpg'', title = ''pinned'', stickied = True,
            is_self = False, over_18 = False\<rparr> \<and>
   stdout (snd (route_posts fixture_env
     [\<lparr>post_url = ''http://i.example/a.jpg'', title = ''pinned'', stickied = True,
       is_self = False, over_18 = False\<rparr>,
      \<lparr>post_url = ''http://i.example/b.jpg'', title = ''adult'', stickied = False,
       is_self = False, over_18 = True\<rparr>] True True False ''pics'' builtin_state)) = [] \<and>
   stdout (snd (route_posts fixture_env [link_post ''http://h/x.gif'' ''funny'']
     True False True ''pics'' builtin_state)) = [''[-] Ignoring gif: funny''] \<and>
   \<not> str_contains ''http://h/x.gif'' ''[-] Ignoring gif: funny''"
  by code_simp

section \<open>Upper-case gif extensions\<close>

lemma lower_append: "lower (a @ b) = lower a @ lower b"
  by (simp add: lower_def)

lemma gif_is_image_format:
  "endswith_any u [''.gif'', ''.gifv''] \<Longrightarrow> endswith_any u IMAGE_FORMATS"
  by (auto simp: endswith_any_def IMAGE_FORMATS_def)

lemma lower_keeps_gif_extension:
  assumes "endswith_any u [''.gif'', ''.gifv'']"
  shows "endswith_any (lower u) [''.gif'', ''.gifv'']"
proof -
  have g: "lower ''.gif'' = ''.gif''" and v: "lower ''.gifv'' = ''.gifv''" by code_simp+
  from assms consider p where "u = p @ ''.gif''" | p where "u = p @ ''.gifv''"
    by (auto simp: endswith_any_def endswith_iff)
  then show ?thesis
  proof cases
    case 1
    then have "lower u = lower p @ ''.gif''" using g by (simp only: lower_append)
    then have "endswith (lower u) ''.gif''" unfolding endswith_iff by blast
    then show ?thesis by (simp add: endswith_any_def)
  next
    case 2
    then have "lower u = lower p @ ''.gifv''" using v by (simp only: lower_append)
    then have "endswith (lower u) ''.gifv''" unfolding endswith_iff by blast
    then show ?thesis by (simp add: endswith_any_def)
  qed
qed

lemma save_image_written:
  "save_image e req path s = (Inr u, s') \<Longrightarrow>
     s' = s\<lparr>disk := disk s @ [WriteFile (path_join path (basename (resp_url req))) (content req)]\<rparr>"
  by (auto simp: save_image_def Let_def split: if_splits)

text \<open>
  Claim C10. The resolver compares the lower-cased URL with the image extensions, the
  filter compares the URL as it is with \<open>.gif\<close> and \<open>.gifv\<close>. A post whose URL ends in
  a gif extension written with an upper-case letter is returned unchanged by the
  resolver, and the gifs flag makes no difference to it: the filter and the router do
  with gifs disallowed what they do with gifs allowed. It is downloaded when it passes
  the first two filter rules, its URL does not contain \<open>/zip\<close>, the fetch succeeds and
  the file is written. A post whose URL ends in \<open>.gif\<close> or \<open>.gifv\<close> as written is
  skipped with the gif line when gifs are disallowed (unless the album rule skips it).
\<close>

theorem uppercase_gif_bypasses_policy:
  assumes "endswith_any (lower (post_url p)) [''.gif'', ''.gifv'']"
      and "\<not> endswith_any (post_url p) [''.gif'', ''.gifv'']"
  shows "get_post_image_url e p s = (Inr (Some (post_url p)), s) \<and>
         ignore_post (Some (post_url p)) albums False (title p) s
           = ignore_post (Some (post_url p)) albums True (title p) s \<and>
         route_post e p albums False nsfw path s = route_post e p albums True nsfw path s \<and>
         (\<forall>req s1 s2.
            \<not> ((stickied p \<or> is_self p) \<or> (over_18 p \<and> \<not> nsfw)) \<and>
            \<not> str_contains ''/zip'' (post_url p) \<and>
            get_request e (Some (post_url p)) s = (Inr req, s1) \<and>
            save_image e req path s1 = (Inr (), s2) \<longrightarrow>
              route_post e p albums False nsfw path s
                = (Inr (), print (''[+] Downloaded '' @ title p) s2) \<and>
              disk s2 = disk s @
                [WriteFile (path_join path (basename (resp_url req))) (content req)]) \<and>
         (\<forall>q.
            endswith_any (post_url q) [''.gif'', ''.gifv''] \<and>
            \<not> ((stickied q \<or> is_self q) \<or> (over_18 q \<and> \<not> nsfw)) \<and>
            \<not> (str_contains ''/zip'' (post_url q) \<and> \<not> albums) \<longrightarrow>
              route_post e q albums False nsfw path s
                = (Inr (), print (''[-] Ignoring gif: '' @ title q) s))"
proof -
  have g: "get_post_image_url e p s = (Inr (Some (post_url p)), s)"
    using gif_is_image_format [OF assms(1)] by (simp add: get_post_image_url_def)
  have i: "ignore_post (Some (post_url p)) albums False (title p) s
           = ignore_post (Some (post_url p)) albums True (title p) s"
    using assms(2) by (simp add: ignore_post_def zip_in_def py_str_def)
  have r: "route_post e p albums False nsfw path s = route_post e p albums True nsfw path s"
    by (simp add: route_post_def g i)
  have d: "route_post e p albums False nsfw path s
                = (Inr (), print (''[+] Downloaded '' @ title p) s2) \<and>
           disk s2 = disk s @ [WriteFile (path_join path (basename (resp_url req))) (content req)]"
    if h: "\<not> ((stickied p \<or> is_self p) \<or> (over_18 p \<and> \<not> nsfw)) \<and>
           \<not> str_contains ''/zip'' (post_url p) \<and>
           get_request e (Some (post_url p)) s = (Inr req, s1) \<and>
           save_image e req path s1 = (Inr (), s2)" for req s1 s2
  proof -
    have c: "((stickied p \<or> is_self p) \<or> (over_18 p \<and> \<not> nsfw)) = False" using h by blast
    have z: "zip_in (Some (post_url p)) = Inr False" using h by (simp add: zip_in_def)
    have ig: "ignore_post (Some (post_url p)) albums False (title p) s = (Inr False, s)"
      using assms(2) z by (simp add: ignore_post_def py_str_def)
    have f: "get_request e (Some (post_url p)) s = (Inr req, s1)"
      and w: "save_image e req path s1 = (Inr (), s2)" using h by blast+
    have "route_post e p albums False nsfw path s
            = (Inr (), print (''[+] Downloaded '' @ title p) s2)"
      unfolding route_post_def c if_False by (simp add: g ig f z w)
    moreover have "disk s2 = disk s @
        [WriteFile (path_join path (basename (resp_url req))) (content req)]"
      using save_image_written [OF w] get_request_logs [OF f] by simp
    ultimately show ?thesis by blast
  qed
  have l: "route_post e q albums False nsfw path s
             = (Inr (), print (''[-] Ignoring gif: '' @ title q) s)"
    if h: "endswith_any (post_url q) [''.gif'', ''.gifv''] \<and>
           \<not> ((stickied q \<or> is_self q) \<or> (over_18 q \<and> \<not> nsfw)) \<and>
           \<not> (str_contains ''/zip'' (post_url q) \<and> \<not> albums)" for q
  proof -
    have c: "((stickied q \<or> is_self q) \<or> (over_18 q \<and> \<not> nsfw)) = False" using h by blast
    have e1: "endswith_any (post_url q) [''.gif'', ''.gifv'']" using h by blast
    have gq: "get_post_image_url e q s = (Inr (Some (post_url q)), s)"
      using gif_is_image_format [OF lower_keeps_gif_extension [OF e1]]
      by (simp add: get_post_image_url_def)
    have ig: "ignore_post (Some (post_url q)) albums False (title q) s
                = (Inr True, print (''[-] Ignoring gif: '' @ title q) s)"
      using h by (auto simp: ignore_post_def zip_in_def py_str_def)
    show ?thesis unfolding route_post_def c if_False by (simp add: gq ig)
  qed
  show ?thesis using g i r d l by blast
qed

theorem uppercase_gif_bypasses_policy_witness:
  "endswith_any (lower ''http://h/x.GIF'') [''.gif'', ''.gifv''] \<and>
   \<not> endswith_any ''http://h/x.GIF'' [''.gif'', ''.gifv''] \<and>
   route_post fixture_env (link_post ''http://h/x.GIF'' ''f'') True False False ''pics'' builtin_state
     = route_post fixture_env (link_post ''http://h/x.GIF'' ''f'') True True False ''pics''
         builtin_state \<and>
   route_post fixture_env (link_post ''http://h/x.GIF'' ''f'') True False False ''pics'' builtin_state
     = (Inr (), print ''[+] Downloaded f''
                  (builtin_state\<lparr>requests := [''http://h/x.GIF''],
                                 disk := [WriteFile ''pics/x.GIF'' ''image bytes'']\<rparr>)) \<and>
   route_post fixture_env (link_post ''http://h/x.gif'' ''g'') True False False ''pics'' builtin_state
     = (Inr (), print ''[-] Ignoring gif: g'' builtin_state)"
proof -
  let ?p = "link_post ''http://h/x.GIF'' ''f''"
  let ?q = "link_post ''http://h/x.gif'' ''g''"
  let ?req = "\<lparr>ok = True, resp_url = ''http://h/x.GIF'', resp_text = [], content = ''image bytes''\<rparr>"
  let ?s1 = "builtin_state\<lparr>requests := [''http://h/x.GIF'']\<rparr>"
  let ?s2 = "builtin_state\<lparr>requests := [''http://h/x.GIF''],
                           disk := [WriteFile ''pics/x.GIF'' ''image bytes'']\<rparr>"
  have u: "post_url (link_post u t) = u" and t: "title (link_post u t) = t" for u t
    by (simp_all add: link_post_def)
  have n: "\<not> ((stickied (link_post u t) \<or> is_self (link_post u t)) \<or>
               (over_18 (link_post u t) \<and> \<not> False))" for u t
    by (simp add: link_post_def)
  have 1: "endswith_any (lower ''http://h/x.GIF'') [''.gif'', ''.gifv'']" by code_simp
  have 2: "\<not> endswith_any ''http://h/x.GIF'' [''.gif'', ''.gifv'']" by code_simp
  have 4: "\<not> str_contains ''/zip'' ''http://h/x.GIF''" by code_simp
  have 5: "get_request fixture_env (Some ''http://h/x.GIF'') builtin_state = (Inr ?req, ?s1)"
    by (simp add: get_request_def fixture_defs str_defs Let_def builtin_state_logs)
  have b: "basename ''http://h/x.GIF'' = ''x.GIF''" by code_simp
  have j: "path_join ''pics'' ''x.GIF'' = ''pics/x.GIF''" by code_simp
  have 6: "save_image fixture_env ?req ''pics'' ?s1 = (Inr (), ?s2)"
    by (simp add: save_image_def Let_def b j fixture_env_def builtin_state_logs)
  have 7: "endswith_any ''http://h/x.gif'' [''.gif'', ''.gifv'']" by code_simp
  have 8: "\<not> str_contains ''/zip'' ''http://h/x.gif''" by code_simp
  note th = uppercase_gif_bypasses_policy [of ?p fixture_env builtin_state True False "''pics''",
      unfolded u t, OF 1 2]
  from th have a: "route_post fixture_env ?p True False False ''pics'' builtin_state
     = route_post fixture_env ?p True True False ''pics'' builtin_state"
    by blast
  from th n [of "''http://h/x.GIF''" "''f''"] 4 5 6
  have c: "route_post fixture_env ?p True False False ''pics'' builtin_state
     = (Inr (), print (''[+] Downloaded '' @ ''f'') ?s2)"
    unfolding u t by blast
  have 9: "endswith_any (post_url ?q) [''.gif'', ''.gifv''] \<and>
           \<not> ((stickied ?q \<or> is_self ?q) \<or> (over_18 ?q \<and> \<not> False)) \<and>
           \<not> (str_contains ''/zip'' (post_url ?q) \<and> \<not> True)"
    using 7 8 n [of "''http://h/x.gif''" "''g''"] by (simp add: u)
  from th 9
  have d: "route_post fixture_env ?q True False False ''pics'' builtin_state
     = (Inr (), print (''[-] Ignoring gif: '' @ title ?q) builtin_state)"
    by blast
  show ?thesis using 1 2 a c d unfolding t by simp
qed

text \<open>
  The claim as stated (every such post is downloaded) fails where the URL also contains
  \<open>/zip\<close> and albums are disallowed: the album rule of \<open>ignore_post\<close> skips the post,
  nothing is requested and nothing is written.
\<close>

theorem uppercase_gif_with_zip_counterexample:
  "endswith_any (lower ''http://h/zip/x.GIF'') [''.gif'', ''.gifv''] \<and>
   \<not> endswith_any ''http://h/zip/x.GIF'' [''.gif'', ''.gifv''] \<and>
   fst (route_posts fixture_env [link_post ''http://h/zip/x.GIF'' ''f'']
          False False False ''pics'' builtin_state) = Inr () \<and>
   stdout (snd (route_posts fixture_env [link_post ''http://h/zip/x.GIF'' ''f'']
          False False False ''pics'' builtin_state)) = [''[-] Ignoring album: f''] \<and>
   requests (snd (route_posts fixture_env [link_post ''http://h/zip/x.GIF'' ''f'']
          False False False ''pics'' builtin_state)) = [] \<and>
   disk (snd (route_posts fixture_env [link_post ''http://h/zip/x.GIF'' ''f'']
          False False False ''pics'' builtin_state)) = []"
  by code_simp

section \<open>Failures of \<open>save_image\<close>\<close>

text \<open>
  A response whose URL ends in a slash has an empty file name: \<open>save_image\<close> raises and
  writes nothing. \<open>route_posts\<close> calls \<open>save_image\<close> outside any handler, so the error
  ends the run; the same holds for a file that cannot be written.
\<close>

lemma basename_trailing_slash: "basename (u @ ''/'') = []"
  by (simp add: basename_def)

lemma save_image_trailing_slash:
  "resp_url req = u @ ''/'' \<Longrightarrow> save_image e req path s = (Inl OSError, s)"
  by (simp add: save_image_def basename_trailing_slash)

lemma unwritable_file_ends_run:
  "fst (route_posts fixture_env
          [link_post ''http://h/locked.GIF'' ''a'', link_post ''http://i.example/b.jpg'' ''b'']
          True True False ''pics'' builtin_state) = Inl OSError \<and>
   stdout (snd (route_posts fixture_env
          [link_post ''http://h/locked.GIF'' ''a'', link_post ''http://i.example/b.jpg'' ''b'']
          True True False ''pics'' builtin_state)) = [] \<and>
   disk (snd (route_posts fixture_env
          [link_post ''http://h/locked.GIF'' ''a'', link_post ''http://i.example/b.jpg'' ''b'']
          True True False ''pics'' builtin_state)) = []"
  by code_simp

end
